theory Spec2Isabelle
  imports Complex_Main "HOL-Library.Word" "HOL-Library.Signed_Division" "HOL-Library.Log_Nat"
begin

section \<open>Decimals and machine integers\<close>

text \<open>
  The program computes with \<^verbatim>\<open>decimal.Decimal\<close> of the shopspring library: a value
  \<open>coefficient * 10 ^ exponent\<close> of unbounded size. Addition, subtraction, multiplication,
  negation, absolute value, minimum and the comparisons are exact, so a decimal is modelled
  by the rational number it denotes. Two operations of the library are not exact in that
  sense and are written out: \<^verbatim>\<open>IntPart\<close> (truncation towards zero) and \<^verbatim>\<open>Div\<close>
  (a quotient rounded to 16 fractional digits, half away from zero; it panics on a zero
  divisor).
\<close>

type_synonym decimal = rat

datatype panic = DivideByZero | NilDereference | IndexOutOfRange

definition Decimal_IntPart :: "decimal \<Rightarrow> int" where
  "Decimal_IntPart d = (if d < 0 then - \<lfloor>- d\<rfloor> else \<lfloor>d\<rfloor>)"

definition DivisionPrecision :: nat where
  "DivisionPrecision = 16"

definition Decimal_Round :: "nat \<Rightarrow> rat \<Rightarrow> decimal" where
  "Decimal_Round p x =
     (if x < 0 then - (of_int \<lfloor>(- x) * 10 ^ p + 1 / 2\<rfloor> / 10 ^ p)
      else of_int \<lfloor>x * 10 ^ p + 1 / 2\<rfloor> / 10 ^ p)"

definition Decimal_DivRound :: "decimal \<Rightarrow> decimal \<Rightarrow> nat \<Rightarrow> decimal" where
  "Decimal_DivRound d d2 p = Decimal_Round p (d / d2)"

definition Decimal_Div :: "decimal \<Rightarrow> decimal \<Rightarrow> panic + decimal" where
  "Decimal_Div d d2 =
     (if d2 = 0 then Inl DivideByZero else Inr (Decimal_DivRound d d2 DivisionPrecision))"

text \<open>
  Go's \<^verbatim>\<open>int64\<close> is a 64-bit word read in two's complement: \<open>+\<close>, \<open>-\<close> and \<open>*\<close> wrap
  around, \<^verbatim>\<open>/\<close> truncates towards zero and panics on a zero divisor.
\<close>

type_synonym int64 = "64 word"

definition int64_quo :: "int64 \<Rightarrow> int64 \<Rightarrow> panic + int64" where
  "int64_quo a b = (if b = 0 then Inl DivideByZero else Inr (word_of_int (sint a sdiv sint b)))"

text \<open>
  A \<^verbatim>\<open>float64\<close> is the real number it denotes, and an arithmetic operation on
  \<^verbatim>\<open>float64\<close> is the exact operation followed by \<open>float64_round\<close>: rounding to the
  nearest number with a 53-bit significand, a tie going to the even significand, on the
  grid of \<open>2^-1074\<close> that the subnormal numbers lie on. Overflow to infinity is left out;
  the one product the program forms is below 100.
\<close>

definition round_half_even :: "real \<Rightarrow> int" where
  "round_half_even q =
     (let f = \<lfloor>q\<rfloor>; d = q - of_int f
      in if d < 1 / 2 \<or> (d = 1 / 2 \<and> even f) then f else f + 1)"

definition float64_round :: "real \<Rightarrow> real" where
  "float64_round x =
     (let a = \<bar>x\<bar> * 2 ^ 1074;
          ulp = 2 ^ nat (bitlen \<lfloor>a\<rfloor> - 53)
      in sgn x * (of_int (round_half_even (a / ulp)) * ulp / 2 ^ 1074))"

section \<open>Fixed-point prices (package domain)\<close>

type_synonym FixedPrice = int64

definition PricePrecision :: int64 where
  "PricePrecision = 1000000000"

definition pricePrecisionDec :: decimal where
  "pricePrecisionDec = 1000000000"

definition ToFixed :: "decimal \<Rightarrow> FixedPrice" where
  "ToFixed d = word_of_int (Decimal_IntPart (d * pricePrecisionDec))"

definition ToDecimal :: "FixedPrice \<Rightarrow> decimal" where
  "ToDecimal f = of_int (sint f) / 10 ^ 9"

definition FixedPrice_Add :: "FixedPrice \<Rightarrow> FixedPrice \<Rightarrow> FixedPrice" where
  "FixedPrice_Add f other = f + other"

definition FixedPrice_Sub :: "FixedPrice \<Rightarrow> FixedPrice \<Rightarrow> FixedPrice" where
  "FixedPrice_Sub f other = f - other"

definition FixedPrice_Mul :: "FixedPrice \<Rightarrow> FixedPrice \<Rightarrow> panic + FixedPrice" where
  "FixedPrice_Mul f other = int64_quo (f * other) PricePrecision"

definition FixedPrice_Div :: "FixedPrice \<Rightarrow> FixedPrice \<Rightarrow> panic + FixedPrice" where
  "FixedPrice_Div f other =
     (if other = 0 then Inr 0 else int64_quo (f * PricePrecision) other)"

definition FixedPrice_GT :: "FixedPrice \<Rightarrow> FixedPrice \<Rightarrow> bool" where
  "FixedPrice_GT f other = (other <s f)"

definition FixedFromBps :: "int64 \<Rightarrow> panic + FixedPrice" where
  "FixedFromBps bps = int64_quo (bps * PricePrecision) 10000"

section \<open>Domain types (package domain)\<close>

text \<open>
  The string-typed enumerations of the source become datatypes. \<open>OrderStatusEmpty\<close> is the
  empty string the order manager passes as the previous status of a new order, and
  \<open>OrderTypeOther\<close> stands for any order type that is neither \<^verbatim>\<open>LIMIT\<close> nor
  \<^verbatim>\<open>MARKET\<close>. Record fields carry a prefix naming their struct, since field names
  are global in Isabelle. Timestamps are nanoseconds since the epoch.
\<close>

datatype Side = SideBuy | SideSell

datatype InstrumentType = InstrumentSpot | InstrumentPerp

datatype OrderType = OrderTypeLimit | OrderTypeMarket | OrderTypeOther

datatype OrderStatus =
    OrderStatusEmpty
  | OrderStatusPendingNew
  | OrderStatusSubmitted
  | OrderStatusAcknowledged
  | OrderStatusPartialFill
  | OrderStatusFilled
  | OrderStatusCancelled
  | OrderStatusRejected
  | OrderStatusSubmitFailed

fun IsTerminal :: "OrderStatus \<Rightarrow> bool" where
  "IsTerminal s =
     (s = OrderStatusFilled \<or> s = OrderStatusCancelled \<or>
      s = OrderStatusRejected \<or> s = OrderStatusSubmitFailed)"

datatype StrategyType = StrategyTriArb | StrategyBasisArb

datatype RiskMode =
  RiskModeNormal | RiskModeWarning | RiskModeDegraded | RiskModeDataStale | RiskModeHalted

type_synonym time = int

type_synonym uuid = nat

record PriceLevel =
  lvl_Price :: decimal
  lvl_Size :: decimal

record OrderBookSnapshot =
  ob_Venue :: string
  ob_Symbol :: string
  ob_Bids :: "PriceLevel list"
  ob_Asks :: "PriceLevel list"
  ob_Sequence :: nat
  ob_VenueTimestamp :: time
  ob_LocalTimestamp :: time

definition BestBid :: "OrderBookSnapshot \<Rightarrow> PriceLevel option" where
  "BestBid ob = (case ob_Bids ob of [] \<Rightarrow> None | l # _ \<Rightarrow> Some l)"

definition BestAsk :: "OrderBookSnapshot \<Rightarrow> PriceLevel option" where
  "BestAsk ob = (case ob_Asks ob of [] \<Rightarrow> None | l # _ \<Rightarrow> Some l)"

record OrderBookDelta =
  od_Venue :: string
  od_Symbol :: string
  od_Bids :: "PriceLevel list"
  od_Asks :: "PriceLevel list"
  od_Sequence :: nat
  od_VenueTimestamp :: time
  od_LocalTimestamp :: time

record CostEstimate =
  ce_FeeBps :: decimal
  ce_SlippageBps :: decimal
  ce_FundingBps :: "decimal option"
  ce_TotalBps :: decimal
  ce_Confidence :: decimal

record LegSpec =
  leg_Symbol :: string
  leg_Side :: Side
  leg_InstrumentType :: InstrumentType
  leg_Price :: decimal
  leg_Size :: decimal
  leg_OrderType :: OrderType

text \<open>
  A signal's identifier and creation time come from the UUID generator and the clock; they
  are inputs of the model where a signal is built.
\<close>

record TradeSignal =
  sig_SignalID :: uuid
  sig_Strategy :: StrategyType
  sig_Venue :: string
  sig_Legs :: "LegSpec list"
  sig_ExpectedEdgeBps :: decimal
  sig_CostEstimate :: CostEstimate
  sig_Confidence :: decimal
  sig_CreatedAt :: time
  sig_MarketDataTimestamp :: time

record Order =
  ord_InternalID :: uuid
  ord_VenueID :: string
  ord_SignalID :: uuid
  ord_Venue :: string
  ord_Symbol :: string
  ord_Side :: Side
  ord_OrderType :: OrderType
  ord_Price :: decimal
  ord_Size :: decimal
  ord_FilledSize :: decimal
  ord_AvgFillPrice :: decimal
  ord_Status :: OrderStatus
  ord_CreatedAt :: time
  ord_UpdatedAt :: time

record Position =
  pos_Venue :: string
  pos_Asset :: string
  pos_InstrumentType :: InstrumentType
  pos_Size :: decimal
  pos_EntryPrice :: decimal
  pos_UnrealizedPnL :: decimal
  pos_MarginUsed :: decimal
  pos_UpdatedAt :: time

type_synonym VenueAssetKey = "string \<times> string"

record OrderCountState =
  oc_Global :: int
  oc_PerVenue :: "string \<rightharpoonup> int"
  oc_PerSymbol :: "string \<rightharpoonup> int"

record RiskState =
  rs_Mode :: RiskMode
  rs_DailyRealizedPnL :: decimal
  rs_DailyUnrealizedPnL :: decimal
  rs_Positions :: "VenueAssetKey \<rightharpoonup> Position"
  rs_OpenOrderCounts :: OrderCountState
  rs_VenueNotionals :: "string \<rightharpoonup> decimal"
  rs_LastCheckpoint :: time
  rs_KillSwitchActive :: bool
  rs_KillSwitchReason :: string

record OrderRequest =
  req_InternalID :: uuid
  req_SignalID :: uuid
  req_Venue :: string
  req_Symbol :: string
  req_Side :: Side
  req_InstrumentType :: InstrumentType
  req_OrderType :: OrderType
  req_Price :: decimal
  req_Size :: decimal
  req_IdempotencyKey :: string

record OrderAck =
  ack_InternalID :: uuid
  ack_VenueID :: string
  ack_Status :: OrderStatus
  ack_Timestamp :: time

record OrderStateChange =
  chg_Order :: Order
  chg_PrevStatus :: OrderStatus
  chg_NewStatus :: OrderStatus
  chg_Timestamp :: time

section \<open>Market-data service (package marketdata)\<close>

record Service =
  md_books :: "string \<rightharpoonup> OrderBookSnapshot"
  md_lastUpdate :: "string \<rightharpoonup> time"
  md_staleDuration :: int
  md_blockDuration :: int

definition bookKey :: "string \<Rightarrow> string \<Rightarrow> string" where
  "bookKey venue symbol = venue @ '':'' @ symbol"

text \<open>
  \<^verbatim>\<open>UpdateOrderBook\<close> and \<^verbatim>\<open>ApplyDelta\<close> read the clock; the reading is the
  argument \<open>now\<close>. Each returns the new service state and the snapshot it publishes on
  the event bus, which is all either of them emits. The snapshot returned is the one
  published as it reads when it is published: in the source it shares its level arrays
  with the stored book, which later deltas edit in place.
\<close>

definition UpdateOrderBook :: "time \<Rightarrow> OrderBookSnapshot \<Rightarrow> Service \<Rightarrow> Service \<times> OrderBookSnapshot" where
  "UpdateOrderBook now snap0 s =
     (let key = bookKey (ob_Venue snap0) (ob_Symbol snap0);
          snap = snap0\<lparr>ob_LocalTimestamp := now\<rparr>
      in (s\<lparr>md_books := (md_books s)(key \<mapsto> snap),
             md_lastUpdate := (md_lastUpdate s)(key \<mapsto> now)\<rparr>, snap))"

fun find_level :: "decimal \<Rightarrow> PriceLevel list \<Rightarrow> nat \<Rightarrow> nat option" where
  "find_level p [] i = None"
| "find_level p (l # ls) i = (if lvl_Price l = p then Some i else find_level p ls (Suc i))"

definition apply_level_delta :: "PriceLevel list \<Rightarrow> PriceLevel \<Rightarrow> PriceLevel list" where
  "apply_level_delta levels d =
     (case find_level (lvl_Price d) levels 0 of
        Some i \<Rightarrow>
          (if lvl_Size d = 0 then take i levels @ drop (Suc i) levels
           else levels[i := (levels ! i)\<lparr>lvl_Size := lvl_Size d\<rparr>])
      | None \<Rightarrow> (if lvl_Size d \<noteq> 0 then levels @ [d] else levels))"

text \<open>
  \<^verbatim>\<open>sortLevels\<close> is an insertion sort: element \<open>i\<close> is swapped towards the front
  while it belongs before its predecessor. \<open>sink\<close> does that on the reversed prefix.
\<close>

definition level_before :: "bool \<Rightarrow> PriceLevel \<Rightarrow> PriceLevel \<Rightarrow> bool" where
  "level_before descending a b =
     (if descending then lvl_Price a > lvl_Price b else lvl_Price a < lvl_Price b)"

fun sink :: "bool \<Rightarrow> PriceLevel \<Rightarrow> PriceLevel list \<Rightarrow> PriceLevel list" where
  "sink descending x [] = [x]"
| "sink descending x (y # ys) =
     (if level_before descending x y then y # sink descending x ys else x # y # ys)"

definition sortLevels :: "PriceLevel list \<Rightarrow> bool \<Rightarrow> PriceLevel list" where
  "sortLevels levels descending = rev (foldl (\<lambda>acc x. sink descending x acc) [] levels)"

definition applyLevelDeltas :: "PriceLevel list \<Rightarrow> PriceLevel list \<Rightarrow> bool \<Rightarrow> PriceLevel list" where
  "applyLevelDeltas levels deltas descending =
     sortLevels (foldl apply_level_delta levels deltas) descending"

definition ApplyDelta :: "time \<Rightarrow> OrderBookDelta \<Rightarrow> Service \<Rightarrow> Service \<times> OrderBookSnapshot" where
  "ApplyDelta now delta s =
     (let key = bookKey (od_Venue delta) (od_Symbol delta);
          book0 = (case md_books s key of
                     Some b \<Rightarrow> b
                   | None \<Rightarrow> \<lparr>ob_Venue = od_Venue delta, ob_Symbol = od_Symbol delta,
                               ob_Bids = [], ob_Asks = [], ob_Sequence = 0,
                               ob_VenueTimestamp = 0, ob_LocalTimestamp = 0\<rparr>);
          book = book0\<lparr>ob_Bids := applyLevelDeltas (ob_Bids book0) (od_Bids delta) True,
                        ob_Asks := applyLevelDeltas (ob_Asks book0) (od_Asks delta) False,
                        ob_Sequence := od_Sequence delta,
                        ob_VenueTimestamp := od_VenueTimestamp delta,
                        ob_LocalTimestamp := now\<rparr>
      in (s\<lparr>md_books := (md_books s)(key \<mapsto> book),
             md_lastUpdate := (md_lastUpdate s)(key \<mapsto> now)\<rparr>, book))"

definition IsDataFresh :: "time \<Rightarrow> Service \<Rightarrow> string \<Rightarrow> string \<Rightarrow> bool" where
  "IsDataFresh now s venue symbol =
     (case md_lastUpdate s (bookKey venue symbol) of
        None \<Rightarrow> False
      | Some t \<Rightarrow> now - t < md_staleDuration s)"

definition IsDataBlocked :: "time \<Rightarrow> Service \<Rightarrow> string \<Rightarrow> string \<Rightarrow> bool" where
  "IsDataBlocked now s venue symbol =
     (case md_lastUpdate s (bookKey venue symbol) of
        None \<Rightarrow> True
      | Some t \<Rightarrow> now - t > md_blockDuration s)"

subsection \<open>The merge of a delta as the specification words it\<close>

text \<open>
  One side of a book read as a map from price to size. A delta level of size zero removes
  its price from the map, any other delta level sets the size at its price. \<open>book_before\<close>
  is the book a delta meets: the stored one, or the empty book made for a new key.
\<close>

definition level_map :: "PriceLevel list \<Rightarrow> (decimal \<rightharpoonup> decimal)" where
  "level_map levels = map_of (map (\<lambda>l. (lvl_Price l, lvl_Size l)) levels)"

definition merge_delta_spec :: "(decimal \<rightharpoonup> decimal) \<Rightarrow> PriceLevel \<Rightarrow> (decimal \<rightharpoonup> decimal)" where
  "merge_delta_spec m d =
     (if lvl_Size d = 0 then m(lvl_Price d := None) else m(lvl_Price d \<mapsto> lvl_Size d))"

definition book_before :: "Service \<Rightarrow> OrderBookDelta \<Rightarrow> OrderBookSnapshot" where
  "book_before s delta =
     (case md_books s (bookKey (od_Venue delta) (od_Symbol delta)) of
        Some b \<Rightarrow> b
      | None \<Rightarrow> \<lparr>ob_Venue = od_Venue delta, ob_Symbol = od_Symbol delta,
                  ob_Bids = [], ob_Asks = [], ob_Sequence = 0,
                  ob_VenueTimestamp = 0, ob_LocalTimestamp = 0\<rparr>)"

definition gap_delta :: OrderBookDelta where
  "gap_delta =
     \<lparr>od_Venue = ''nobitex'', od_Symbol = ''BTC/USDT'',
      od_Bids = [\<lparr>lvl_Price = 49999, lvl_Size = 2\<rparr>, \<lparr>lvl_Price = 50000, lvl_Size = 0\<rparr>],
      od_Asks = [\<lparr>lvl_Price = 50001, lvl_Size = 3\<rparr>, \<lparr>lvl_Price = 50000 + 1 / 2, lvl_Size = 1\<rparr>],
      od_Sequence = 9, od_VenueTimestamp = 990, od_LocalTimestamp = 0\<rparr>"

section \<open>Risk manager (package risk)\<close>

subsection \<open>Kill switch\<close>

text \<open>
  The kill switch keeps its state in memory and writes it to a file. \<open>ks_file\<close> is the
  content of that file (\<open>None\<close> when there is none). \<^verbatim>\<open>os.WriteFile\<close> can fail, in
  which case the source logs the error and carries on: \<open>write_ok\<close> says whether the write
  goes through (marshalling the state is taken to succeed).
\<close>

record killSwitchState =
  kss_Active :: bool
  kss_Reason :: string
  kss_ActivatedAt :: time

record KillSwitch =
  ks_active :: bool
  ks_reason :: string
  ks_activatedAt :: time
  ks_file :: "killSwitchState option"

definition loadState :: "KillSwitch \<Rightarrow> KillSwitch" where
  "loadState ks =
     (case ks_file ks of
        None \<Rightarrow> ks
      | Some st \<Rightarrow> ks\<lparr>ks_active := kss_Active st, ks_reason := kss_Reason st,
                       ks_activatedAt := kss_ActivatedAt st\<rparr>)"

definition NewKillSwitch :: "killSwitchState option \<Rightarrow> KillSwitch" where
  "NewKillSwitch file =
     loadState \<lparr>ks_active = False, ks_reason = [], ks_activatedAt = 0, ks_file = file\<rparr>"

definition persistState :: "bool \<Rightarrow> KillSwitch \<Rightarrow> KillSwitch" where
  "persistState write_ok ks =
     (if write_ok
      then ks\<lparr>ks_file := Some \<lparr>kss_Active = ks_active ks, kss_Reason = ks_reason ks,
                                 kss_ActivatedAt = ks_activatedAt ks\<rparr>\<rparr>
      else ks)"

definition KillSwitch_Activate :: "bool \<Rightarrow> time \<Rightarrow> string \<Rightarrow> KillSwitch \<Rightarrow> KillSwitch" where
  "KillSwitch_Activate write_ok now reason ks =
     persistState write_ok (ks\<lparr>ks_active := True, ks_reason := reason, ks_activatedAt := now\<rparr>)"


subsection \<open>PnL tracker\<close>

record PnLTracker =
  pt_dailyRealizedPnL :: decimal
  pt_dailyUnrealizedPnL :: decimal
  pt_lastReset :: time

definition nanosPerDay :: int where
  "nanosPerDay = 86400 * 1000000000"

definition todayUTC :: "time \<Rightarrow> time" where
  "todayUTC now = (now div nanosPerDay) * nanosPerDay"

definition NewPnLTracker :: "time \<Rightarrow> PnLTracker" where
  "NewPnLTracker now =
     \<lparr>pt_dailyRealizedPnL = 0, pt_dailyUnrealizedPnL = 0, pt_lastReset = todayUTC now\<rparr>"

definition checkDailyReset :: "time \<Rightarrow> PnLTracker \<Rightarrow> PnLTracker" where
  "checkDailyReset now p =
     (if todayUTC now > pt_lastReset p
      then p\<lparr>pt_dailyRealizedPnL := 0, pt_dailyUnrealizedPnL := 0, pt_lastReset := todayUTC now\<rparr>
      else p)"

definition AddRealizedPnL :: "time \<Rightarrow> decimal \<Rightarrow> PnLTracker \<Rightarrow> PnLTracker" where
  "AddRealizedPnL now amount p =
     (let p' = checkDailyReset now p
      in p'\<lparr>pt_dailyRealizedPnL := pt_dailyRealizedPnL p' + amount\<rparr>)"

definition UpdateUnrealizedPnL :: "time \<Rightarrow> decimal \<Rightarrow> PnLTracker \<Rightarrow> PnLTracker" where
  "UpdateUnrealizedPnL now amount p =
     (let p' = checkDailyReset now p in p'\<lparr>pt_dailyUnrealizedPnL := amount\<rparr>)"

definition TotalDailyPnL :: "PnLTracker \<Rightarrow> decimal" where
  "TotalDailyPnL p = pt_dailyRealizedPnL p + pt_dailyUnrealizedPnL p"

subsection \<open>Manager\<close>

datatype RejectionReason =
    NoReason
  | RejectPositionLimit
  | RejectNotionalLimit
  | RejectDailyLoss
  | RejectGlobalOrders
  | RejectVenueOrders
  | RejectSymbolOrders
  | RejectDataStale
  | RejectKillSwitch
  | RejectHalted

text \<open>
  The \<^verbatim>\<open>Details\<close> string of a validation result is a message for the log reader; the
  model keeps the decision and its reason.
\<close>

record ValidationResult =
  vr_Approved :: bool
  vr_Reason :: RejectionReason

definition rejected :: "RejectionReason \<Rightarrow> ValidationResult" where
  "rejected r = \<lparr>vr_Approved = False, vr_Reason = r\<rparr>"

definition approved :: ValidationResult where
  "approved = \<lparr>vr_Approved = True, vr_Reason = NoReason\<rparr>"

record MaxOpenOrdersConfig =
  moo_Global :: int
  moo_PerVenue :: int
  moo_PerSymbol :: int

record RiskConfig =
  cfg_MaxPosition :: "string \<rightharpoonup> decimal"
  cfg_MaxNotionalPerVenue :: "string \<rightharpoonup> decimal"
  cfg_DailyLossCapUSDT :: decimal
  cfg_WarningThresholdPct :: int
  cfg_MaxOpenOrders :: MaxOpenOrdersConfig

text \<open>
  \<open>mgr_callbacksStarted\<close> counts the goroutines started for the kill-switch callback,
  \<open>mgr_onKillSwitch\<close> says whether a callback is registered.
\<close>

record Manager =
  mgr_state :: RiskState
  mgr_pnlTracker :: PnLTracker
  mgr_killSwitch :: KillSwitch
  mgr_mdService :: Service
  mgr_cfg :: RiskConfig
  mgr_onKillSwitch :: bool
  mgr_callbacksStarted :: nat

function find_slash :: "string \<Rightarrow> nat \<Rightarrow> nat option" where
  "find_slash symbol i =
     (if i < length symbol
      then (if symbol ! i = CHR ''/'' then Some i else find_slash symbol (i + 1))
      else None)"
  by pat_completeness auto
termination
  by (relation "measure (\<lambda>(symbol, i). length symbol - i)") auto

fun match_asset :: "string list \<Rightarrow> string \<Rightarrow> string" where
  "match_asset [] symbol = symbol"
| "match_asset (a # as) symbol =
     (if length symbol \<ge> length a \<and> take (length a) symbol = a then a
      else match_asset as symbol)"

definition extractAsset :: "string \<Rightarrow> string" where
  "extractAsset symbol =
     (case find_slash symbol 0 of
        Some i \<Rightarrow> take i symbol
      | None \<Rightarrow> match_asset [''BTC'', ''ETH'', ''SOL''] symbol)"

fun check_data_blocked :: "time \<Rightarrow> Service \<Rightarrow> string \<Rightarrow> LegSpec list \<Rightarrow> ValidationResult option" where
  "check_data_blocked now md venue [] = None"
| "check_data_blocked now md venue (leg # legs) =
     (if IsDataBlocked now md venue (leg_Symbol leg) then Some (rejected RejectDataStale)
      else check_data_blocked now md venue legs)"

fun check_position_limits :: "RiskConfig \<Rightarrow> RiskState \<Rightarrow> string \<Rightarrow> LegSpec list \<Rightarrow> ValidationResult option" where
  "check_position_limits cfg st venue [] = None"
| "check_position_limits cfg st venue (leg # legs) =
     (let asset = extractAsset (leg_Symbol leg) in
      case cfg_MaxPosition cfg asset of
        Some maxPos \<Rightarrow>
          (let currentPos = (case rs_Positions st (venue, asset) of
                              Some pos \<Rightarrow> \<bar>pos_Size pos\<bar>
                            | None \<Rightarrow> 0);
               newSize = currentPos + leg_Size leg
           in if newSize > maxPos then Some (rejected RejectPositionLimit)
              else check_position_limits cfg st venue legs)
      | None \<Rightarrow> check_position_limits cfg st venue legs)"

fun additional_notional :: "decimal \<Rightarrow> LegSpec list \<Rightarrow> decimal" where
  "additional_notional acc [] = acc"
| "additional_notional acc (leg # legs) =
     additional_notional (acc + leg_Price leg * leg_Size leg) legs"

definition lookup0 :: "('k \<rightharpoonup> 'v::zero) \<Rightarrow> 'k \<Rightarrow> 'v" where
  "lookup0 m k = (case m k of Some v \<Rightarrow> v | None \<Rightarrow> 0)"

fun check_symbol_orders :: "RiskConfig \<Rightarrow> RiskState \<Rightarrow> LegSpec list \<Rightarrow> ValidationResult option" where
  "check_symbol_orders cfg st [] = None"
| "check_symbol_orders cfg st (leg # legs) =
     (if lookup0 (oc_PerSymbol (rs_OpenOrderCounts st)) (leg_Symbol leg)
           \<ge> moo_PerSymbol (cfg_MaxOpenOrders cfg)
      then Some (rejected RejectSymbolOrders)
      else check_symbol_orders cfg st legs)"

definition ValidateSignal :: "time \<Rightarrow> Manager \<Rightarrow> TradeSignal \<Rightarrow> ValidationResult" where
  "ValidateSignal now m signal =
     (let cfg = mgr_cfg m; st = mgr_state m; venue = sig_Venue signal; legs = sig_Legs signal in
      if ks_active (mgr_killSwitch m) then rejected RejectKillSwitch
      else if rs_Mode st = RiskModeHalted then rejected RejectHalted
      else case check_data_blocked now (mgr_mdService m) venue legs of
        Some r \<Rightarrow> r
      | None \<Rightarrow>
      (case check_position_limits cfg st venue legs of
        Some r \<Rightarrow> r
      | None \<Rightarrow>
      (if (case cfg_MaxNotionalPerVenue cfg venue of
             Some maxNotional \<Rightarrow>
               lookup0 (rs_VenueNotionals st) venue + additional_notional 0 legs > maxNotional
           | None \<Rightarrow> False)
       then rejected RejectNotionalLimit
       else if TotalDailyPnL (mgr_pnlTracker m) \<le> - cfg_DailyLossCapUSDT cfg
       then rejected RejectDailyLoss
       else if oc_Global (rs_OpenOrderCounts st) \<ge> moo_Global (cfg_MaxOpenOrders cfg)
       then rejected RejectGlobalOrders
       else if lookup0 (oc_PerVenue (rs_OpenOrderCounts st)) venue
                 \<ge> moo_PerVenue (cfg_MaxOpenOrders cfg)
       then rejected RejectVenueOrders
       else case check_symbol_orders cfg st legs of
         Some r \<Rightarrow> r
       | None \<Rightarrow> approved)))"

text \<open>
  The operations that change the manager read the clock, write the kill-switch file and
  format a decimal for the kill-switch reason; \<open>Env\<close> carries the clock reading, whether
  the file write succeeds, and the formatter.
\<close>

record Env =
  env_now :: time
  env_write_ok :: bool
  env_format :: "decimal \<Rightarrow> string"

definition checkPnLLimits :: "Env \<Rightarrow> Manager \<Rightarrow> Manager" where
  "checkPnLLimits env m =
     (let totalPnL = TotalDailyPnL (mgr_pnlTracker m);
          lossCap = - cfg_DailyLossCapUSDT (mgr_cfg m);
          warningLevel =
            Decimal_DivRound (lossCap * of_int (cfg_WarningThresholdPct (mgr_cfg m))) 100
              DivisionPrecision
      in if totalPnL \<le> lossCap
         then m\<lparr>mgr_state := (mgr_state m)\<lparr>rs_Mode := RiskModeHalted\<rparr>,
                mgr_killSwitch :=
                  KillSwitch_Activate (env_write_ok env) (env_now env)
                    (''daily PnL breach: '' @ env_format env totalPnL) (mgr_killSwitch m),
                mgr_callbacksStarted :=
                  (if mgr_onKillSwitch m then Suc (mgr_callbacksStarted m)
                   else mgr_callbacksStarted m)\<rparr>
         else if totalPnL \<le> warningLevel
         then (if rs_Mode (mgr_state m) = RiskModeNormal
               then m\<lparr>mgr_state := (mgr_state m)\<lparr>rs_Mode := RiskModeWarning\<rparr>\<rparr>
               else m)
         else m)"

definition OnOrderFill :: "Env \<Rightarrow> Order \<Rightarrow> decimal \<Rightarrow> Manager \<Rightarrow> Manager" where
  "OnOrderFill env order pnl m =
     (let tracker = AddRealizedPnL (env_now env) pnl (mgr_pnlTracker m);
          asset = extractAsset (ord_Symbol order);
          key = (ord_Venue order, asset);
          st = mgr_state m;
          position =
            (case rs_Positions st key of
               Some pos \<Rightarrow>
                 pos\<lparr>pos_Size :=
                       (if ord_Side order = SideBuy then pos_Size pos + ord_FilledSize order
                        else pos_Size pos - ord_FilledSize order),
                     pos_UpdatedAt := env_now env\<rparr>
             | None \<Rightarrow>
                 \<lparr>pos_Venue = ord_Venue order, pos_Asset = asset,
                  pos_InstrumentType = InstrumentSpot,
                  pos_Size = (if ord_Side order = SideSell then - ord_FilledSize order
                              else ord_FilledSize order),
                  pos_EntryPrice = ord_AvgFillPrice order,
                  pos_UnrealizedPnL = 0, pos_MarginUsed = 0,
                  pos_UpdatedAt = env_now env\<rparr>);
          notional = ord_AvgFillPrice order * ord_FilledSize order;
          st' = st\<lparr>rs_Positions := (rs_Positions st)(key \<mapsto> position),
                    rs_VenueNotionals :=
                      (rs_VenueNotionals st)(ord_Venue order \<mapsto>
                         lookup0 (rs_VenueNotionals st) (ord_Venue order) + notional)\<rparr>
      in checkPnLLimits env (m\<lparr>mgr_pnlTracker := tracker, mgr_state := st'\<rparr>))"









subsection \<open>The validation order as the specification words it\<close>

text \<open>
  The asset of a symbol: the part before the first \<open>/\<close>; without a \<open>/\<close>, the first of
  BTC, ETH, SOL that the symbol starts with, and else the symbol itself.
\<close>

definition asset_of_symbol_spec :: "string \<Rightarrow> string" where
  "asset_of_symbol_spec symbol =
     (if CHR ''/'' \<in> set symbol then takeWhile (\<lambda>c. c \<noteq> CHR ''/'') symbol
      else if take 3 symbol = ''BTC'' then ''BTC''
      else if take 3 symbol = ''ETH'' then ''ETH''
      else if take 3 symbol = ''SOL'' then ''SOL''
      else symbol)"

definition position_cap_exceeded_spec :: "Manager \<Rightarrow> string \<Rightarrow> LegSpec \<Rightarrow> bool" where
  "position_cap_exceeded_spec m venue leg =
     (let asset = asset_of_symbol_spec (leg_Symbol leg) in
      case cfg_MaxPosition (mgr_cfg m) asset of
        None \<Rightarrow> False
      | Some cap \<Rightarrow>
          (case rs_Positions (mgr_state m) (venue, asset) of
             None \<Rightarrow> leg_Size leg > cap
           | Some pos \<Rightarrow> \<bar>pos_Size pos\<bar> + leg_Size leg > cap))"

definition notional_cap_exceeded_spec :: "Manager \<Rightarrow> TradeSignal \<Rightarrow> bool" where
  "notional_cap_exceeded_spec m signal =
     (case cfg_MaxNotionalPerVenue (mgr_cfg m) (sig_Venue signal) of
        None \<Rightarrow> False
      | Some cap \<Rightarrow>
          lookup0 (rs_VenueNotionals (mgr_state m)) (sig_Venue signal)
            + (\<Sum>leg\<leftarrow>sig_Legs signal. leg_Price leg * leg_Size leg) > cap)"

text \<open>The checks in their order, each with the reason it rejects with.\<close>

definition validation_checks_spec :: "time \<Rightarrow> Manager \<Rightarrow> TradeSignal \<Rightarrow> (bool \<times> RejectionReason) list" where
  "validation_checks_spec now m signal =
     [(ks_active (mgr_killSwitch m), RejectKillSwitch),
      (rs_Mode (mgr_state m) = RiskModeHalted, RejectHalted),
      (\<exists>leg \<in> set (sig_Legs signal).
          IsDataBlocked now (mgr_mdService m) (sig_Venue signal) (leg_Symbol leg), RejectDataStale),
      (\<exists>leg \<in> set (sig_Legs signal). position_cap_exceeded_spec m (sig_Venue signal) leg,
       RejectPositionLimit),
      (notional_cap_exceeded_spec m signal, RejectNotionalLimit),
      (\<not> (pt_dailyRealizedPnL (mgr_pnlTracker m) + pt_dailyUnrealizedPnL (mgr_pnlTracker m)
            > - cfg_DailyLossCapUSDT (mgr_cfg m)), RejectDailyLoss),
      (oc_Global (rs_OpenOrderCounts (mgr_state m)) \<ge> moo_Global (cfg_MaxOpenOrders (mgr_cfg m)),
       RejectGlobalOrders),
      (lookup0 (oc_PerVenue (rs_OpenOrderCounts (mgr_state m))) (sig_Venue signal)
         \<ge> moo_PerVenue (cfg_MaxOpenOrders (mgr_cfg m)), RejectVenueOrders),
      (\<exists>leg \<in> set (sig_Legs signal).
          lookup0 (oc_PerSymbol (rs_OpenOrderCounts (mgr_state m))) (leg_Symbol leg)
            \<ge> moo_PerSymbol (cfg_MaxOpenOrders (mgr_cfg m)), RejectSymbolOrders)]"

fun first_failure_spec :: "(bool \<times> RejectionReason) list \<Rightarrow> ValidationResult" where
  "first_failure_spec [] = approved"
| "first_failure_spec ((failed, reason) # checks) =
     (if failed then rejected reason else first_failure_spec checks)"

subsection \<open>The manager of the package's tests\<close>

text \<open>
  \<^verbatim>\<open>newTestManager\<close> of \<^verbatim>\<open>manager_test.go\<close>: one book for BTC/USDT on nobitex, the
  caps of the default configuration, and no kill-switch file. The service was created and
  the book stored at time \<open>0\<close>.
\<close>

definition test_cfg :: RiskConfig where
  "test_cfg =
     \<lparr>cfg_MaxPosition = [''BTC'' \<mapsto> 3 / 2, ''ETH'' \<mapsto> 25, ''SOL'' \<mapsto> 800],
      cfg_MaxNotionalPerVenue = [''nobitex'' \<mapsto> 250000, ''kcex'' \<mapsto> 200000],
      cfg_DailyLossCapUSDT = 12500,
      cfg_WarningThresholdPct = 80,
      cfg_MaxOpenOrders = \<lparr>moo_Global = 120, moo_PerVenue = 70, moo_PerSymbol = 20\<rparr>\<rparr>"

definition test_book :: OrderBookSnapshot where
  "test_book =
     \<lparr>ob_Venue = ''nobitex'', ob_Symbol = ''BTC/USDT'',
      ob_Bids = [\<lparr>lvl_Price = 50000, lvl_Size = 1\<rparr>],
      ob_Asks = [\<lparr>lvl_Price = 50001, lvl_Size = 1\<rparr>],
      ob_Sequence = 0, ob_VenueTimestamp = 0, ob_LocalTimestamp = 0\<rparr>"

definition NewService :: "int \<Rightarrow> int \<Rightarrow> Service" where
  "NewService staleDuration blockDuration =
     \<lparr>md_books = Map.empty, md_lastUpdate = Map.empty,
      md_staleDuration = staleDuration, md_blockDuration = blockDuration\<rparr>"

definition NewManager :: "time \<Rightarrow> RiskConfig \<Rightarrow> Service \<Rightarrow> killSwitchState option \<Rightarrow> Manager" where
  "NewManager now cfg mdService killSwitchFile =
     \<lparr>mgr_state =
        \<lparr>rs_Mode = RiskModeNormal, rs_DailyRealizedPnL = 0, rs_DailyUnrealizedPnL = 0,
         rs_Positions = Map.empty,
         rs_OpenOrderCounts = \<lparr>oc_Global = 0, oc_PerVenue = Map.empty, oc_PerSymbol = Map.empty\<rparr>,
         rs_VenueNotionals = Map.empty, rs_LastCheckpoint = 0,
         rs_KillSwitchActive = False, rs_KillSwitchReason = []\<rparr>,
      mgr_pnlTracker = NewPnLTracker now,
      mgr_killSwitch = NewKillSwitch killSwitchFile,
      mgr_mdService = mdService,
      mgr_cfg = cfg,
      mgr_onKillSwitch = False,
      mgr_callbacksStarted = 0\<rparr>"

definition test_manager :: Manager where
  "test_manager =
     NewManager 0 test_cfg
       (fst (UpdateOrderBook 0 test_book (NewService 500000000 2000000000))) None"

definition test_signal :: "decimal \<Rightarrow> TradeSignal" where
  "test_signal sz =
     \<lparr>sig_SignalID = 1, sig_Strategy = StrategyTriArb, sig_Venue = ''nobitex'',
      sig_Legs = [\<lparr>leg_Symbol = ''BTC/USDT'', leg_Side = SideBuy,
                   leg_InstrumentType = InstrumentSpot, leg_Price = 50000, leg_Size = sz,
                   leg_OrderType = OrderTypeLimit\<rparr>],
      sig_ExpectedEdgeBps = 0,
      sig_CostEstimate = \<lparr>ce_FeeBps = 0, ce_SlippageBps = 0, ce_FundingBps = None,
                          ce_TotalBps = 0, ce_Confidence = 0\<rparr>,
      sig_Confidence = 0, sig_CreatedAt = 0, sig_MarketDataTimestamp = 0\<rparr>"



section \<open>Order manager (package order)\<close>

text \<open>
  The orders are kept as an association list with one entry per internal id, so that the
  clean-up can walk them; the other two maps are looked up only. A venue gateway answers a
  placement or a cancellation with an error message or an acknowledgement. Each operation
  returns, with the new state, what it emits: the state changes it publishes and the calls
  it makes to a venue, in order. All clock readings of one operation are the one \<open>now\<close>.
\<close>

record CancelAck =
  cak_InternalID :: uuid
  cak_VenueID :: string
  cak_Status :: OrderStatus
  cak_Timestamp :: time

record VenueGateway =
  gw_PlaceOrder :: "OrderRequest \<Rightarrow> string + OrderAck"
  gw_CancelOrder :: "string \<Rightarrow> string + CancelAck"

record OrderManager =
  om_orders :: "(uuid \<times> Order) list"
  om_venueIDMap :: "string \<rightharpoonup> uuid"
  om_idempotencyMap :: "string \<rightharpoonup> uuid"

datatype om_effect =
    PublishOrderState OrderStateChange
  | VenuePlaceOrder string OrderRequest
  | VenueCancelOrder string string

datatype om_error =
    UnknownVenue string
  | PlaceOrderFailed string
  | OrderNotFound uuid
  | CancelOrderFailed string

definition NewOrderManager :: OrderManager where
  "NewOrderManager = \<lparr>om_orders = [], om_venueIDMap = Map.empty, om_idempotencyMap = Map.empty\<rparr>"

fun store_order :: "uuid \<Rightarrow> Order \<Rightarrow> (uuid \<times> Order) list \<Rightarrow> (uuid \<times> Order) list" where
  "store_order k v [] = [(k, v)]"
| "store_order k v ((k', v') # kvs) =
     (if k = k' then (k, v) # kvs else (k', v') # store_order k v kvs)"

definition publishStateChange :: "time \<Rightarrow> Order \<Rightarrow> OrderStatus \<Rightarrow> OrderStatus \<Rightarrow> om_effect" where
  "publishStateChange now order prev new =
     PublishOrderState \<lparr>chg_Order = order, chg_PrevStatus = prev, chg_NewStatus = new,
                        chg_Timestamp = now\<rparr>"

definition updateStatus :: "time \<Rightarrow> uuid \<Rightarrow> OrderStatus \<Rightarrow> OrderManager \<Rightarrow> OrderManager \<times> om_effect list" where
  "updateStatus now internalID newStatus m =
     (case map_of (om_orders m) internalID of
        None \<Rightarrow> (m, [])
      | Some order \<Rightarrow>
          (let order' = order\<lparr>ord_Status := newStatus, ord_UpdatedAt := now\<rparr>
           in (m\<lparr>om_orders := store_order internalID order' (om_orders m)\<rparr>,
               [publishStateChange now order' (ord_Status order) newStatus])))"

definition SubmitOrder ::
  "time \<Rightarrow> (string \<rightharpoonup> VenueGateway) \<Rightarrow> OrderRequest \<Rightarrow> OrderManager
     \<Rightarrow> (om_error + Order option) \<times> OrderManager \<times> om_effect list" where
  "SubmitOrder now gateways req m =
     (case (if req_IdempotencyKey req \<noteq> [] then om_idempotencyMap m (req_IdempotencyKey req)
            else None) of
        Some existing \<Rightarrow> (Inr (map_of (om_orders m) existing), m, [])
      | None \<Rightarrow>
          (let order = \<lparr>ord_InternalID = req_InternalID req, ord_VenueID = [],
                         ord_SignalID = req_SignalID req, ord_Venue = req_Venue req,
                         ord_Symbol = req_Symbol req, ord_Side = req_Side req,
                         ord_OrderType = req_OrderType req, ord_Price = req_Price req,
                         ord_Size = req_Size req, ord_FilledSize = 0, ord_AvgFillPrice = 0,
                         ord_Status = OrderStatusPendingNew, ord_CreatedAt = now,
                         ord_UpdatedAt = now\<rparr>;
               internalID = ord_InternalID order;
               m1 = m\<lparr>om_orders := store_order internalID order (om_orders m),
                      om_idempotencyMap :=
                        (if req_IdempotencyKey req \<noteq> []
                         then (om_idempotencyMap m)(req_IdempotencyKey req \<mapsto> internalID)
                         else om_idempotencyMap m)\<rparr>;
               e1 = [publishStateChange now order OrderStatusEmpty OrderStatusPendingNew]
           in case gateways (req_Venue req) of
                None \<Rightarrow>
                  (let (m2, e2) = updateStatus now internalID OrderStatusSubmitFailed m1
                   in (Inl (UnknownVenue (req_Venue req)), m2, e1 @ e2))
              | Some gw \<Rightarrow>
                  (let (m2, e2) = updateStatus now internalID OrderStatusSubmitted m1
                   in case gw_PlaceOrder gw req of
                        Inl err \<Rightarrow>
                          (let (m3, e3) = updateStatus now internalID OrderStatusSubmitFailed m2
                           in (Inl (PlaceOrderFailed err), m3,
                               e1 @ e2 @ [VenuePlaceOrder (req_Venue req) req] @ e3))
                      | Inr ack \<Rightarrow>
                          (let order' = order\<lparr>ord_VenueID := ack_VenueID ack,
                                               ord_Status := ack_Status ack,
                                               ord_UpdatedAt := now\<rparr>;
                               m3 = m2\<lparr>om_orders := store_order internalID order' (om_orders m2),
                                      om_venueIDMap :=
                                        (om_venueIDMap m2)(ack_VenueID ack \<mapsto> internalID)\<rparr>
                           in (Inr (Some order'), m3,
                               e1 @ e2 @ [VenuePlaceOrder (req_Venue req) req,
                                  publishStateChange now order' OrderStatusSubmitted
                                    (ack_Status ack)])))))"

definition CancelOrder ::
  "time \<Rightarrow> (string \<rightharpoonup> VenueGateway) \<Rightarrow> uuid \<Rightarrow> OrderManager
     \<Rightarrow> om_error option \<times> OrderManager \<times> om_effect list" where
  "CancelOrder now gateways internalID m =
     (case map_of (om_orders m) internalID of
        None \<Rightarrow> (Some (OrderNotFound internalID), m, [])
      | Some order \<Rightarrow>
          (case gateways (ord_Venue order) of
             None \<Rightarrow> (Some (UnknownVenue (ord_Venue order)), m, [])
           | Some gw \<Rightarrow>
               (case gw_CancelOrder gw (ord_VenueID order) of
                  Inl err \<Rightarrow>
                    (Some (CancelOrderFailed err), m,
                     [VenueCancelOrder (ord_Venue order) (ord_VenueID order)])
                | Inr ack \<Rightarrow>
                    (let (m', e) = updateStatus now internalID OrderStatusCancelled m
                     in (None, m', VenueCancelOrder (ord_Venue order) (ord_VenueID order) # e)))))"

fun cancel_each ::
  "time \<Rightarrow> (string \<rightharpoonup> VenueGateway) \<Rightarrow> uuid list \<Rightarrow> OrderManager
     \<Rightarrow> OrderManager \<times> om_effect list" where
  "cancel_each now gateways [] m = (m, [])"
| "cancel_each now gateways (i # ids) m =
     (let (err, m1, e1) = CancelOrder now gateways i m;
          (m2, e2) = cancel_each now gateways ids m1
      in (m2, e1 @ e2))"

definition CancelAllOrders ::
  "time \<Rightarrow> (string \<rightharpoonup> VenueGateway) \<Rightarrow> OrderManager \<Rightarrow> OrderManager \<times> om_effect list" where
  "CancelAllOrders now gateways m =
     cancel_each now gateways
       (map fst (filter (\<lambda>(i, order). \<not> IsTerminal (ord_Status order)) (om_orders m))) m"

definition UpdateOrderFill ::
  "time \<Rightarrow> uuid \<Rightarrow> decimal \<Rightarrow> decimal \<Rightarrow> OrderManager \<Rightarrow> OrderManager \<times> om_effect list" where
  "UpdateOrderFill now internalID filledSize avgPrice m =
     (case map_of (om_orders m) internalID of
        None \<Rightarrow> (m, [])
      | Some order \<Rightarrow>
          (let prevStatus = ord_Status order;
               o1 = order\<lparr>ord_FilledSize := filledSize, ord_AvgFillPrice := avgPrice,
                          ord_UpdatedAt := now\<rparr>;
               o2 = (if ord_FilledSize o1 \<ge> ord_Size o1 then o1\<lparr>ord_Status := OrderStatusFilled\<rparr>
                     else if ord_FilledSize o1 > 0 then o1\<lparr>ord_Status := OrderStatusPartialFill\<rparr>
                     else o1)
           in (m\<lparr>om_orders := store_order internalID o2 (om_orders m)\<rparr>,
               if prevStatus \<noteq> ord_Status o2
               then [publishStateChange now o2 prevStatus (ord_Status o2)] else [])))"

definition GetOrder :: "uuid \<Rightarrow> OrderManager \<Rightarrow> Order option" where
  "GetOrder internalID m = map_of (om_orders m) internalID"

definition is_stale :: "time \<Rightarrow> int \<Rightarrow> Order \<Rightarrow> bool" where
  "is_stale now maxAge order =
     (IsTerminal (ord_Status order) \<and> ord_UpdatedAt order < now - maxAge)"

fun forget_venue_ids :: "Order list \<Rightarrow> (string \<rightharpoonup> uuid) \<Rightarrow> (string \<rightharpoonup> uuid)" where
  "forget_venue_ids [] vm = vm"
| "forget_venue_ids (order # orders) vm =
     forget_venue_ids orders
       (if ord_VenueID order \<noteq> [] then vm(ord_VenueID order := None) else vm)"

definition CleanupStaleOrders :: "time \<Rightarrow> int \<Rightarrow> OrderManager \<Rightarrow> OrderManager" where
  "CleanupStaleOrders now maxAge m =
     m\<lparr>om_orders := filter (\<lambda>(i, order). \<not> is_stale now maxAge order) (om_orders m),
       om_venueIDMap :=
         forget_venue_ids
           (map snd (filter (\<lambda>(i, order). is_stale now maxAge order) (om_orders m)))
           (om_venueIDMap m)\<rparr>"

text \<open>
  The gateway of the dry run (\<^verbatim>\<open>simulated.Gateway\<close>) never refuses a cancellation; here
  it fills what it is given at once. \<open>failing_gateway\<close> refuses every placement.
\<close>

definition filling_gateway :: VenueGateway where
  "filling_gateway =
     \<lparr>gw_PlaceOrder = (\<lambda>req. Inr \<lparr>ack_InternalID = req_InternalID req, ack_VenueID = ''v-1'',
                                     ack_Status = OrderStatusFilled, ack_Timestamp = 0\<rparr>),
      gw_CancelOrder = (\<lambda>orderID. Inr \<lparr>cak_InternalID = 0, cak_VenueID = [],
                                          cak_Status = OrderStatusCancelled,
                                          cak_Timestamp = 0\<rparr>)\<rparr>"

definition failing_gateway :: VenueGateway where
  "failing_gateway =
     \<lparr>gw_PlaceOrder = (\<lambda>req. Inl ''venue unavailable''),
      gw_CancelOrder = (\<lambda>orderID. Inl ''venue unavailable'')\<rparr>"

definition test_request :: OrderRequest where
  "test_request =
     \<lparr>req_InternalID = 1, req_SignalID = 9, req_Venue = ''sim'', req_Symbol = ''BTC/USDT'',
      req_Side = SideBuy, req_InstrumentType = InstrumentSpot, req_OrderType = OrderTypeMarket,
      req_Price = 50000, req_Size = 1, req_IdempotencyKey = ''9-leg-0''\<rparr>"

section \<open>Fill simulator (package simulated)\<close>

text \<open>
  The simulator owns a pseudo-random generator, seeded from the clock when the simulator is
  built. The generator is a parameter of the model: \<open>NewSource\<close> makes a generator state
  from a seed and \<open>Float64\<close> draws a \<^verbatim>\<open>float64\<close> in \<open>[0, 1)\<close> and gives the next
  state. The product of the draw and 100 is the rounded \<^verbatim>\<open>float64\<close> product. A \<open>nil\<close>
  book is \<open>None\<close>.
\<close>

record SimulatedFill =
  sf_FillPrice :: decimal
  sf_FillSize :: decimal
  sf_Fee :: decimal
  sf_LatencyMs :: int
  sf_Status :: OrderStatus

record 'g DefaultFillSimulator =
  fs_latencyMs :: int
  fs_rejectRatePct :: real
  fs_makerFeeBps :: decimal
  fs_takerFeeBps :: decimal
  fs_rng :: 'g

definition NewFillSimulator ::
  "(int \<Rightarrow> 'g) \<Rightarrow> time \<Rightarrow> int \<Rightarrow> real \<Rightarrow> decimal \<Rightarrow> decimal \<Rightarrow> 'g DefaultFillSimulator" where
  "NewFillSimulator NewSource now latencyMs rejectRatePct makerFeeBps takerFeeBps =
     \<lparr>fs_latencyMs = latencyMs, fs_rejectRatePct = rejectRatePct,
      fs_makerFeeBps = makerFeeBps, fs_takerFeeBps = takerFeeBps, fs_rng = NewSource now\<rparr>"

fun walk_levels :: "PriceLevel list \<Rightarrow> decimal \<Rightarrow> decimal \<Rightarrow> decimal \<Rightarrow> decimal \<times> decimal \<times> decimal" where
  "walk_levels [] remaining totalCost totalFilled = (remaining, totalCost, totalFilled)"
| "walk_levels (level # levels) remaining totalCost totalFilled =
     (if remaining = 0 then (remaining, totalCost, totalFilled)
      else (let fillAtLevel = min remaining (lvl_Size level)
            in walk_levels levels (remaining - fillAtLevel)
                 (totalCost + fillAtLevel * lvl_Price level) (totalFilled + fillAtLevel)))"

text \<open>
  The division of \<^verbatim>\<open>simulateMarketFill\<close> comes after the test that the divisor is not
  zero, and the fee is divided by the constant 10000: both are the rounded quotient.
\<close>

definition simulateMarketFill :: "PriceLevel list \<Rightarrow> decimal \<Rightarrow> decimal \<times> decimal" where
  "simulateMarketFill levels sz =
     (case walk_levels levels sz 0 0 of
        (remaining, totalCost, totalFilled) \<Rightarrow>
          if totalFilled = 0 then (0, 0)
          else (Decimal_DivRound totalCost totalFilled DivisionPrecision, totalFilled))"

definition reject_draw :: "('g \<Rightarrow> real \<times> 'g) \<Rightarrow> 'g DefaultFillSimulator \<Rightarrow> bool \<times> 'g" where
  "reject_draw Float64 s =
     (if fs_rejectRatePct s > 0
      then (case Float64 (fs_rng s) of
              (u, g) \<Rightarrow> (float64_round (u * 100) < fs_rejectRatePct s, g))
      else (False, fs_rng s))"

definition rejected_fill :: "'g DefaultFillSimulator \<Rightarrow> SimulatedFill" where
  "rejected_fill s =
     \<lparr>sf_FillPrice = 0, sf_FillSize = 0, sf_Fee = 0, sf_LatencyMs = fs_latencyMs s,
      sf_Status = OrderStatusRejected\<rparr>"

definition resting_fill :: "'g DefaultFillSimulator \<Rightarrow> OrderRequest \<Rightarrow> SimulatedFill" where
  "resting_fill s order =
     \<lparr>sf_FillPrice = req_Price order, sf_FillSize = 0, sf_Fee = 0,
      sf_LatencyMs = fs_latencyMs s, sf_Status = OrderStatusAcknowledged\<rparr>"

definition finish_fill :: "'g DefaultFillSimulator \<Rightarrow> OrderRequest \<Rightarrow> decimal \<Rightarrow> decimal \<times> decimal \<Rightarrow> SimulatedFill" where
  "finish_fill s order feeBps fill =
     (case fill of
        (fillPrice, fillSize) \<Rightarrow>
          \<lparr>sf_FillPrice = fillPrice, sf_FillSize = fillSize,
           sf_Fee = Decimal_DivRound (fillPrice * fillSize * feeBps) 10000 DivisionPrecision,
           sf_LatencyMs = fs_latencyMs s,
           sf_Status = (if fillSize < req_Size order then OrderStatusPartialFill
                        else OrderStatusFilled)\<rparr>)"

definition fill_against_book :: "'g DefaultFillSimulator \<Rightarrow> OrderRequest \<Rightarrow> OrderBookSnapshot \<Rightarrow> SimulatedFill" where
  "fill_against_book s order book =
     (case req_OrderType order of
        OrderTypeMarket \<Rightarrow>
          (if req_Side order = SideBuy
           then (if ob_Asks book = [] then rejected_fill s
                 else finish_fill s order (fs_takerFeeBps s)
                        (simulateMarketFill (ob_Asks book) (req_Size order)))
           else (if ob_Bids book = [] then rejected_fill s
                 else finish_fill s order (fs_takerFeeBps s)
                        (simulateMarketFill (ob_Bids book) (req_Size order))))
      | OrderTypeLimit \<Rightarrow>
          (if req_Side order = SideBuy
           then (case ob_Asks book of
                   [] \<Rightarrow> rejected_fill s
                 | bestAsk # _ \<Rightarrow>
                     if req_Price order < lvl_Price bestAsk then resting_fill s order
                     else finish_fill s order (fs_makerFeeBps s)
                            (simulateMarketFill (ob_Asks book) (req_Size order)))
           else (case ob_Bids book of
                   [] \<Rightarrow> rejected_fill s
                 | bestBid # _ \<Rightarrow>
                     if req_Price order > lvl_Price bestBid then resting_fill s order
                     else finish_fill s order (fs_makerFeeBps s)
                            (simulateMarketFill (ob_Bids book) (req_Size order))))
      | OrderTypeOther \<Rightarrow> finish_fill s order 0 (0, 0))"

definition SimulateFill ::
  "('g \<Rightarrow> real \<times> 'g) \<Rightarrow> OrderRequest \<Rightarrow> OrderBookSnapshot option \<Rightarrow> 'g DefaultFillSimulator
     \<Rightarrow> SimulatedFill \<times> 'g DefaultFillSimulator" where
  "SimulateFill Float64 order book s =
     (case reject_draw Float64 s of
        (hit, g) \<Rightarrow>
          (if hit then rejected_fill s
           else case book of
                  None \<Rightarrow> rejected_fill s
                | Some b \<Rightarrow> fill_against_book s order b,
           s\<lparr>fs_rng := g\<rparr>))"

subsection \<open>The market fill as the specification words it\<close>

text \<open>
  The side a market order trades against, the liquidity it holds, what a walk that wants
  \<open>want\<close> takes from level \<open>i\<close> (what is left of \<open>want\<close> after the levels before it, up
  to the size of the level), and the size-weighted average price of what is taken.
\<close>

definition opposite_side :: "OrderRequest \<Rightarrow> OrderBookSnapshot \<Rightarrow> PriceLevel list" where
  "opposite_side order book = (if req_Side order = SideBuy then ob_Asks book else ob_Bids book)"

definition total_available :: "PriceLevel list \<Rightarrow> decimal" where
  "total_available levels = (\<Sum>l\<leftarrow>levels. lvl_Size l)"

definition consumed_spec :: "PriceLevel list \<Rightarrow> decimal \<Rightarrow> decimal list" where
  "consumed_spec levels want =
     map (\<lambda>i. max 0 (min (lvl_Size (levels ! i)) (want - total_available (take i levels))))
       [0..<length levels]"

definition consumed_cost :: "PriceLevel list \<Rightarrow> decimal \<Rightarrow> decimal" where
  "consumed_cost levels want =
     (\<Sum>(a, l)\<leftarrow>zip (consumed_spec levels want) levels. a * lvl_Price l)"

definition weighted_average_spec :: "PriceLevel list \<Rightarrow> decimal \<Rightarrow> rat" where
  "weighted_average_spec levels want =
     consumed_cost levels want / sum_list (consumed_spec levels want)"

definition partial_fill_book :: OrderBookSnapshot where
  "partial_fill_book =
     \<lparr>ob_Venue = [], ob_Symbol = [], ob_Bids = [],
      ob_Asks = [\<lparr>lvl_Price = 50000, lvl_Size = 3 / 10\<rparr>],
      ob_Sequence = 0, ob_VenueTimestamp = 0, ob_LocalTimestamp = 0\<rparr>"

definition partial_fill_order :: OrderRequest where
  "partial_fill_order =
     \<lparr>req_InternalID = 1, req_SignalID = 0, req_Venue = [], req_Symbol = ''BTC/USDT'',
      req_Side = SideBuy, req_InstrumentType = InstrumentSpot, req_OrderType = OrderTypeMarket,
      req_Price = 0, req_Size = 1, req_IdempotencyKey = []\<rparr>"

definition two_level_book :: OrderBookSnapshot where
  "two_level_book =
     \<lparr>ob_Venue = [], ob_Symbol = [], ob_Bids = [],
      ob_Asks = [\<lparr>lvl_Price = 1, lvl_Size = 1\<rparr>, \<lparr>lvl_Price = 2, lvl_Size = 2\<rparr>],
      ob_Sequence = 0, ob_VenueTimestamp = 0, ob_LocalTimestamp = 0\<rparr>"

text \<open>A stand-in generator for examples: the state counts the draws, each draw is 1/2.\<close>

definition count_source :: "int \<Rightarrow> nat" where
  "count_source seed = 0"

definition count_draw :: "nat \<Rightarrow> real \<times> nat" where
  "count_draw g = (1 / 2, Suc g)"

text \<open>
  A stand-in generator whose stream depends on the seed: a linear congruential state, the
  draw being the state's last two bits as quarters.
\<close>

definition lcg_source :: "int \<Rightarrow> nat" where
  "lcg_source seed = nat (seed mod 2147483648)"

definition lcg_draw :: "nat \<Rightarrow> real \<times> nat" where
  "lcg_draw g = (real (g mod 4) / 4, (1103515245 * g + 12345) mod 2147483648)"

section \<open>Triangular arbitrage (package strategy)\<close>

text \<open>
  A path has exactly three legs (an array of length 3 in the source). The module keeps its
  own copy of the books, by symbol. A missing book is the \<open>nil\<close> pointer the map lookup
  returns, and reading a best level through it panics. The cost model is a parameter: it
  answers with an error message or an estimate. Signal identifiers come from \<open>ids\<close>, the
  creation time is \<open>now\<close>.
\<close>

record TriangularLeg =
  tl_Symbol :: string
  tl_Side :: Side

record TriangularPath =
  tp_Venue :: string
  tp_Legs :: "TriangularLeg \<times> TriangularLeg \<times> TriangularLeg"

definition legs_of :: "TriangularPath \<Rightarrow> TriangularLeg list" where
  "legs_of path = (case tp_Legs path of (l0, l1, l2) \<Rightarrow> [l0, l1, l2])"

record TriArbModule =
  ta_paths :: "TriangularPath list"
  ta_books :: "string \<rightharpoonup> OrderBookSnapshot"
  ta_minEdgeBps :: int64
  ta_venue :: string

type_synonym CostModelService =
  "string \<Rightarrow> string \<Rightarrow> Side \<Rightarrow> decimal \<Rightarrow> OrderType \<Rightarrow> string + CostEstimate"

fun pathInvolves :: "TriangularLeg list \<Rightarrow> string \<Rightarrow> bool" where
  "pathInvolves [] symbol = False"
| "pathInvolves (leg # legs) symbol =
     (if tl_Symbol leg = symbol then True else pathInvolves legs symbol)"

fun allBooksAvailable :: "(string \<rightharpoonup> OrderBookSnapshot) \<Rightarrow> TriangularLeg list \<Rightarrow> bool" where
  "allBooksAvailable books [] = True"
| "allBooksAvailable books (leg # legs) =
     (case books (tl_Symbol leg) of
        None \<Rightarrow> False
      | Some book \<Rightarrow> allBooksAvailable books legs)"

text \<open>
  The loop of \<^verbatim>\<open>computeEdge\<close>: \<open>Inr None\<close> is an early \<^verbatim>\<open>return 0\<close>,
  \<open>Inr (Some r)\<close> the implied rate at the end of the loop, \<open>Inl\<close> a panic.
\<close>

fun edge_loop ::
  "(string \<rightharpoonup> OrderBookSnapshot) \<Rightarrow> TriangularLeg list \<Rightarrow> FixedPrice
     \<Rightarrow> panic + FixedPrice option" where
  "edge_loop books [] impliedRate = Inr (Some impliedRate)"
| "edge_loop books (leg # legs) impliedRate =
     (case books (tl_Symbol leg) of
        None \<Rightarrow> Inl NilDereference
      | Some book \<Rightarrow>
          (if tl_Side leg = SideBuy
           then (case BestAsk book of
                   None \<Rightarrow> Inr None
                 | Some ask \<Rightarrow>
                     (let price = ToFixed (lvl_Price ask)
                      in if price = 0 then Inr None
                         else case FixedPrice_Div impliedRate price of
                                Inl p \<Rightarrow> Inl p
                              | Inr r \<Rightarrow> edge_loop books legs r))
           else (case BestBid book of
                   None \<Rightarrow> Inr None
                 | Some bid \<Rightarrow>
                     (let price = ToFixed (lvl_Price bid)
                      in case FixedPrice_Mul impliedRate price of
                           Inl p \<Rightarrow> Inl p
                         | Inr r \<Rightarrow> edge_loop books legs r))))"

definition computeEdge :: "(string \<rightharpoonup> OrderBookSnapshot) \<Rightarrow> TriangularPath \<Rightarrow> panic + FixedPrice" where
  "computeEdge books path =
     (case edge_loop books (legs_of path) (ToFixed 1) of
        Inl p \<Rightarrow> Inl p
      | Inr None \<Rightarrow> Inr 0
      | Inr (Some impliedRate) \<Rightarrow>
          (let one = ToFixed 1
           in if FixedPrice_GT impliedRate one then Inr (FixedPrice_Sub impliedRate one)
              else Inr 0))"

text \<open>
  The first loop of \<^verbatim>\<open>buildSignal\<close> collects the legs at the best prices and the
  smallest notional; \<open>Inr None\<close> is \<^verbatim>\<open>return nil\<close>.
\<close>

fun collect_legs ::
  "(string \<rightharpoonup> OrderBookSnapshot) \<Rightarrow> TriangularLeg list \<Rightarrow> decimal \<Rightarrow> LegSpec list
     \<Rightarrow> panic + (LegSpec list \<times> decimal) option" where
  "collect_legs books [] minSize legs = Inr (Some (legs, minSize))"
| "collect_legs books (leg # rest) minSize legs =
     (case books (tl_Symbol leg) of
        None \<Rightarrow> Inl NilDereference
      | Some book \<Rightarrow>
          (case (if tl_Side leg = SideBuy then BestAsk book else BestBid book) of
             None \<Rightarrow> Inr None
           | Some best \<Rightarrow>
               (let price = lvl_Price best; sz = lvl_Size best;
                    notional = price * sz;
                    minSize' = (if notional < minSize then notional else minSize)
                in collect_legs books rest minSize'
                     (legs @ [\<lparr>leg_Symbol = tl_Symbol leg, leg_Side = tl_Side leg,
                               leg_InstrumentType = InstrumentSpot, leg_Price = price,
                               leg_Size = sz, leg_OrderType = OrderTypeLimit\<rparr>]))))"

fun resize_legs :: "decimal \<Rightarrow> LegSpec list \<Rightarrow> panic + LegSpec list" where
  "resize_legs minSize [] = Inr []"
| "resize_legs minSize (leg # legs) =
     (case (if leg_Price leg > 0
            then (case Decimal_Div minSize (leg_Price leg) of
                    Inl p \<Rightarrow> Inl p
                  | Inr q \<Rightarrow> Inr (leg\<lparr>leg_Size := q\<rparr>))
            else Inr leg) of
        Inl p \<Rightarrow> Inl p
      | Inr leg' \<Rightarrow>
          (case resize_legs minSize legs of
             Inl p \<Rightarrow> Inl p
           | Inr legs' \<Rightarrow> Inr (leg' # legs')))"

definition buildSignal ::
  "CostModelService \<Rightarrow> uuid \<Rightarrow> time \<Rightarrow> TriArbModule \<Rightarrow> TriangularPath \<Rightarrow> FixedPrice \<Rightarrow> time
     \<Rightarrow> panic + TradeSignal option" where
  "buildSignal EstimateCost newID now m path edgeBps mdTimestamp =
     (case collect_legs (ta_books m) (legs_of path) 999999999 [] of
        Inl p \<Rightarrow> Inl p
      | Inr None \<Rightarrow> Inr None
      | Inr (Some (legs0, minSize)) \<Rightarrow>
          (case resize_legs minSize legs0 of
             Inl p \<Rightarrow> Inl p
           | Inr legs \<Rightarrow>
               (case legs of
                  [] \<Rightarrow> Inl IndexOutOfRange
                | first # _ \<Rightarrow>
                    (case EstimateCost (ta_venue m) (leg_Symbol first) (leg_Side first)
                            (leg_Size first) OrderTypeLimit of
                       Inl err \<Rightarrow> Inr None
                     | Inr costEst \<Rightarrow>
                         (let edgeDecimal = ToDecimal edgeBps * 10000;
                              netEdge = edgeDecimal - ce_TotalBps costEst
                          in if netEdge \<le> 0 then Inr None
                             else Inr (Some
                               \<lparr>sig_SignalID = newID, sig_Strategy = StrategyTriArb,
                                sig_Venue = ta_venue m, sig_Legs = legs,
                                sig_ExpectedEdgeBps = netEdge, sig_CostEstimate = costEst,
                                sig_Confidence = ce_Confidence costEst, sig_CreatedAt = now,
                                sig_MarketDataTimestamp = mdTimestamp\<rparr>))))))"

text \<open>
  The body of the loop of \<^verbatim>\<open>evaluate\<close> for one path: \<open>Inr (Some signal)\<close> when a
  signal is published, \<open>Inr None\<close> when the path is passed over.
\<close>

definition evaluate_path ::
  "CostModelService \<Rightarrow> uuid \<Rightarrow> time \<Rightarrow> TriArbModule \<Rightarrow> string \<Rightarrow> time \<Rightarrow> TriangularPath
     \<Rightarrow> panic + TradeSignal option" where
  "evaluate_path EstimateCost newID now m updatedSymbol mdTimestamp path =
     (if \<not> pathInvolves (legs_of path) updatedSymbol then Inr None
      else if \<not> allBooksAvailable (ta_books m) (legs_of path) then Inr None
      else case computeEdge (ta_books m) path of
             Inl p \<Rightarrow> Inl p
           | Inr edgeBps \<Rightarrow>
               (case FixedFromBps (ta_minEdgeBps m) of
                  Inl p \<Rightarrow> Inl p
                | Inr threshold \<Rightarrow>
                    if FixedPrice_GT edgeBps threshold
                    then buildSignal EstimateCost newID now m path edgeBps mdTimestamp
                    else Inr None))"

fun evaluate_paths ::
  "CostModelService \<Rightarrow> (nat \<Rightarrow> uuid) \<Rightarrow> time \<Rightarrow> TriArbModule \<Rightarrow> string \<Rightarrow> time \<Rightarrow> nat
     \<Rightarrow> TriangularPath list \<Rightarrow> panic + TradeSignal list" where
  "evaluate_paths EstimateCost ids now m updatedSymbol mdTimestamp n [] = Inr []"
| "evaluate_paths EstimateCost ids now m updatedSymbol mdTimestamp n (path # paths) =
     (case evaluate_path EstimateCost (ids n) now m updatedSymbol mdTimestamp path of
        Inl p \<Rightarrow> Inl p
      | Inr published \<Rightarrow>
          (case evaluate_paths EstimateCost ids now m updatedSymbol mdTimestamp (Suc n) paths of
             Inl p \<Rightarrow> Inl p
           | Inr signals \<Rightarrow>
               Inr ((case published of None \<Rightarrow> [] | Some signal \<Rightarrow> [signal]) @ signals)))"

definition evaluate ::
  "CostModelService \<Rightarrow> (nat \<Rightarrow> uuid) \<Rightarrow> time \<Rightarrow> TriArbModule \<Rightarrow> string \<Rightarrow> time
     \<Rightarrow> panic + TradeSignal list" where
  "evaluate EstimateCost ids now m updatedSymbol mdTimestamp =
     evaluate_paths EstimateCost ids now m updatedSymbol mdTimestamp 0 (ta_paths m)"

definition OnOrderBookUpdate ::
  "CostModelService \<Rightarrow> (nat \<Rightarrow> uuid) \<Rightarrow> time \<Rightarrow> OrderBookSnapshot \<Rightarrow> TriArbModule
     \<Rightarrow> panic + (TriArbModule \<times> TradeSignal list)" where
  "OnOrderBookUpdate EstimateCost ids now snap m =
     (if ob_Venue snap \<noteq> ta_venue m then Inr (m, [])
      else (let m' = m\<lparr>ta_books := (ta_books m)(ob_Symbol snap \<mapsto> snap)\<rparr>
            in case evaluate EstimateCost ids now m' (ob_Symbol snap) (ob_LocalTimestamp snap) of
                 Inl p \<Rightarrow> Inl p
               | Inr signals \<Rightarrow> Inr (m', signals)))"

subsection \<open>The implied rate as the specification words it\<close>

text \<open>
  Starting from a rate, divide by the best ask on a buy leg and multiply by the best bid on
  a sell leg, in fixed point. There is no rate (\<open>None\<close>) when a leg has no book, no best
  level on the side it needs, or a buy price that is 0 in fixed point.
\<close>

definition fixed_quotient :: "int64 \<Rightarrow> int64 \<Rightarrow> int64" where
  "fixed_quotient a b = word_of_int (sint a sdiv sint b)"

fun implied_rate_spec ::
  "(string \<rightharpoonup> OrderBookSnapshot) \<Rightarrow> TriangularLeg list \<Rightarrow> FixedPrice \<Rightarrow> FixedPrice option" where
  "implied_rate_spec books [] rate = Some rate"
| "implied_rate_spec books (leg # legs) rate =
     (case books (tl_Symbol leg) of
        None \<Rightarrow> None
      | Some book \<Rightarrow>
          (case tl_Side leg of
             SideBuy \<Rightarrow>
               (case BestAsk book of
                  None \<Rightarrow> None
                | Some ask \<Rightarrow>
                    if ToFixed (lvl_Price ask) = 0 then None
                    else implied_rate_spec books legs
                           (fixed_quotient (rate * PricePrecision) (ToFixed (lvl_Price ask))))
           | SideSell \<Rightarrow>
               (case BestBid book of
                  None \<Rightarrow> None
                | Some bid \<Rightarrow>
                    implied_rate_spec books legs
                      (fixed_quotient (rate * ToFixed (lvl_Price bid)) PricePrecision))))"

subsection \<open>Books for examples\<close>

definition one_level_book :: "string \<Rightarrow> decimal \<Rightarrow> decimal \<Rightarrow> OrderBookSnapshot" where
  "one_level_book symbol bid ask =
     \<lparr>ob_Venue = ''nobitex'', ob_Symbol = symbol,
      ob_Bids = [\<lparr>lvl_Price = bid, lvl_Size = 1\<rparr>],
      ob_Asks = [\<lparr>lvl_Price = ask, lvl_Size = 1\<rparr>],
      ob_Sequence = 1, ob_VenueTimestamp = 0, ob_LocalTimestamp = 0\<rparr>"

definition btc_eth_path :: TriangularPath where
  "btc_eth_path =
     \<lparr>tp_Venue = ''nobitex'',
      tp_Legs = (\<lparr>tl_Symbol = ''BTC/USDT'', tl_Side = SideBuy\<rparr>,
                 \<lparr>tl_Symbol = ''ETH/BTC'', tl_Side = SideBuy\<rparr>,
                 \<lparr>tl_Symbol = ''ETH/USDT'', tl_Side = SideSell\<rparr>)\<rparr>"

definition example_module :: "decimal \<Rightarrow> TriArbModule" where
  "example_module eth_bid =
     \<lparr>ta_paths = [btc_eth_path],
      ta_books = [''BTC/USDT'' \<mapsto> one_level_book ''BTC/USDT'' 49990 50000,
                  ''ETH/BTC'' \<mapsto> one_level_book ''ETH/BTC'' (59 / 1000) (6 / 100),
                  ''ETH/USDT'' \<mapsto> one_level_book ''ETH/USDT'' eth_bid (eth_bid + 1)],
      ta_minEdgeBps = 18, ta_venue = ''nobitex''\<rparr>"

definition tiny_ask_books :: "string \<rightharpoonup> OrderBookSnapshot" where
  "tiny_ask_books =
     [''BTC/USDT'' \<mapsto> one_level_book ''BTC/USDT'' 0 (1 / 10 ^ 10),
      ''ETH/BTC'' \<mapsto> one_level_book ''ETH/BTC'' (59 / 1000) (6 / 100),
      ''ETH/USDT'' \<mapsto> one_level_book ''ETH/USDT'' 3050 3051]"

definition free_cost_model :: CostModelService where
  "free_cost_model venue symbol side sz orderType =
     Inr \<lparr>ce_FeeBps = 0, ce_SlippageBps = 0, ce_FundingBps = None, ce_TotalBps = 0,
          ce_Confidence = 1\<rparr>"

section \<open>Fixed-point round trip\<close>

lemma Decimal_IntPart_close: "\<bar>x - of_int (Decimal_IntPart x)\<bar> < 1"
  unfolding Decimal_IntPart_def by (cases "x < 0") (simp_all, linarith+)

lemma Decimal_IntPart_lower:
  assumes "- (2 ^ 63) \<le> x"
  shows "- (2 ^ 63) \<le> Decimal_IntPart x"
proof (cases "x < 0")
  case True
  have "- x \<le> of_int (2 ^ 63)"
    using assms by simp
  then have "\<lfloor>- x\<rfloor> \<le> 2 ^ 63"
    by (metis floor_of_int floor_mono)
  with True show ?thesis
    by (simp add: Decimal_IntPart_def)
next
  case False
  then have "0 \<le> \<lfloor>x\<rfloor>"
    by simp
  moreover have "(0::int) < 2 ^ 63"
    by simp
  ultimately have "- (2 ^ 63) \<le> \<lfloor>x\<rfloor>"
    by linarith
  with False show ?thesis
    by (simp only: Decimal_IntPart_def if_False)
qed

lemma Decimal_IntPart_upper:
  assumes "x < 2 ^ 63"
  shows "Decimal_IntPart x < 2 ^ 63"
proof (cases "x < 0")
  case True
  then have "0 \<le> \<lfloor>- x\<rfloor>"
    by simp
  moreover have "(0::int) < 2 ^ 63"
    by simp
  ultimately have "- \<lfloor>- x\<rfloor> < 2 ^ 63"
    by linarith
  with True show ?thesis
    by (simp only: Decimal_IntPart_def if_True)
next
  case False
  have "x < of_int (2 ^ 63)"
    using assms by simp
  then have "\<lfloor>x\<rfloor> < 2 ^ 63"
    by (simp only: floor_less_iff)
  with False show ?thesis
    by (simp add: Decimal_IntPart_def)
qed

lemma scaled_difference:
  "\<bar>d - rat_of_int k / 10 ^ 9\<bar> = \<bar>d * 10 ^ 9 - of_int k\<bar> / 10 ^ 9"
proof -
  have "d - of_int k / 10 ^ 9 = (d * 10 ^ 9 - of_int k) / 10 ^ 9"
    by (simp add: field_simps)
  then have "\<bar>d - rat_of_int k / 10 ^ 9\<bar> = \<bar>(d * 10 ^ 9 - of_int k) / 10 ^ 9\<bar>"
    by (simp only:)
  also have "\<dots> = \<bar>d * 10 ^ 9 - of_int k\<bar> / 10 ^ 9"
    by (simp only: abs_divide) simp
  finally show ?thesis .
qed

lemma sint_word_of_int_int64:
  "- (2 ^ 63) \<le> k \<Longrightarrow> k < 2 ^ 63 \<Longrightarrow> sint (word_of_int k :: int64) = k"
  by (simp add: signed_of_int signed_take_bit_int_eq_self)

text \<open>
  C9. For every decimal \<open>d\<close> whose scaled value \<open>d * 10^9\<close> lies in the range of a signed
  64-bit integer, converting to fixed point and back loses at most \<open>10^-9\<close>.
\<close>

theorem ToFixed_roundtrip_loss:
  assumes "- (2 ^ 63) \<le> d * 10 ^ 9" and "d * 10 ^ 9 < 2 ^ 63"
  shows "\<bar>d - ToDecimal (ToFixed d)\<bar> \<le> 1 / 10 ^ 9"
proof -
  let ?x = "d * 10 ^ 9"
  let ?k = "Decimal_IntPart ?x"
  have "sint (word_of_int ?k :: int64) = ?k"
    using assms by (intro sint_word_of_int_int64 Decimal_IntPart_lower Decimal_IntPart_upper)
  then have td: "ToDecimal (ToFixed d) = of_int ?k / 10 ^ 9"
    by (simp add: ToDecimal_def ToFixed_def pricePrecisionDec_def)
  have "\<bar>d - of_int ?k / 10 ^ 9\<bar> = \<bar>?x - of_int ?k\<bar> / 10 ^ 9"
    by (rule scaled_difference)
  also have "\<dots> \<le> 1 / 10 ^ 9"
    using Decimal_IntPart_close [of ?x] by (simp add: divide_le_cancel)
  finally have "\<bar>d - of_int ?k / 10 ^ 9\<bar> \<le> 1 / 10 ^ 9" .
  then show ?thesis
    by (simp only: td)
qed

theorem ToFixed_roundtrip_loss_witness:
  "- (2 ^ 63) \<le> (123456789 / 10 ^ 10 :: rat) * 10 ^ 9 \<and> (123456789 / 10 ^ 10 :: rat) * 10 ^ 9 < 2 ^ 63
   \<and> \<bar>123456789 / 10 ^ 10 - ToDecimal (ToFixed (123456789 / 10 ^ 10))\<bar> \<le> 1 / 10 ^ 9"
proof -
  have a: "- (2 ^ 63) \<le> (123456789 / 10 ^ 10 :: rat) * 10 ^ 9"
    by simp
  have b: "(123456789 / 10 ^ 10 :: rat) * 10 ^ 9 < 2 ^ 63"
    by simp
  show ?thesis
    using a b ToFixed_roundtrip_loss [OF a b] by (intro conjI)
qed


section \<open>Risk validation order\<close>

lemma find_slash_None: "find_slash symbol i = None \<longleftrightarrow> CHR ''/'' \<notin> set (drop i symbol)"
proof (induction symbol i rule: find_slash.induct)
  case (1 symbol i)
  show ?case
  proof (cases "i < length symbol")
    case True
    then have d: "drop i symbol = symbol ! i # drop (Suc i) symbol"
      by (simp add: Cons_nth_drop_Suc)
    show ?thesis
      using True 1 by (subst find_slash.simps) (auto simp: d)
  next
    case False
    then show ?thesis by (subst find_slash.simps) simp
  qed
qed

lemma find_slash_Some:
  "find_slash symbol i = Some k \<Longrightarrow>
     take k symbol = take i symbol @ takeWhile (\<lambda>c. c \<noteq> CHR ''/'') (drop i symbol)"
proof (induction symbol i rule: find_slash.induct)
  case (1 symbol i)
  show ?case
  proof (cases "i < length symbol")
    case True
    then have d: "drop i symbol = symbol ! i # drop (Suc i) symbol"
      by (simp add: Cons_nth_drop_Suc)
    show ?thesis
    proof (cases "symbol ! i = CHR ''/''")
      case T2: True
      with True 1(2) have "k = i" by (subst (asm) find_slash.simps) simp
      with T2 show ?thesis by (simp add: d)
    next
      case F2: False
      with True 1(2) have "find_slash symbol (i + 1) = Some k"
        by (subst (asm) find_slash.simps) simp
      with 1(1) True F2 have "take k symbol = take (i + 1) symbol @ takeWhile (\<lambda>c. c \<noteq> CHR ''/'') (drop (i + 1) symbol)"
        by simp
      with True F2 show ?thesis by (simp add: d take_Suc_conv_app_nth)
    qed
  next
    case False
    with 1(2) show ?thesis by (subst (asm) find_slash.simps) simp
  qed
qed

lemma take_prefix_iff:
  "(length a \<le> length s \<and> take (length a) s = a) \<longleftrightarrow> take (length a) s = a"
  by (metis length_take min.absorb_iff2 min.commute)

lemma match_asset_three:
  "match_asset [''BTC'', ''ETH'', ''SOL''] symbol =
     (if take 3 symbol = ''BTC'' then ''BTC''
      else if take 3 symbol = ''ETH'' then ''ETH''
      else if take 3 symbol = ''SOL'' then ''SOL''
      else symbol)"
proof -
  have l: "length ''BTC'' = 3" "length ''ETH'' = 3" "length ''SOL'' = 3"
    by simp_all
  have p: "(3 \<le> length symbol \<and> take 3 symbol = a) \<longleftrightarrow> take 3 symbol = a"
    if "length a = 3" for a :: string
    using take_prefix_iff [of a symbol] that by simp
  show ?thesis
    unfolding match_asset.simps l by (simp only: p l)
qed

lemma extractAsset_spec: "extractAsset symbol = asset_of_symbol_spec symbol"
proof (cases "find_slash symbol 0")
  case None
  then have "CHR ''/'' \<notin> set symbol" using find_slash_None [of symbol 0] by simp
  with None show ?thesis
    by (simp only: extractAsset_def asset_of_symbol_spec_def match_asset_three option.case if_False)
next
  case (Some k)
  then have "CHR ''/'' \<in> set symbol" using find_slash_None [of symbol 0] by auto
  with Some find_slash_Some [OF Some] show ?thesis
    by (simp add: extractAsset_def asset_of_symbol_spec_def)
qed

lemma check_data_blocked_spec:
  "check_data_blocked now md venue legs =
     (if \<exists>leg \<in> set legs. IsDataBlocked now md venue (leg_Symbol leg)
      then Some (rejected RejectDataStale) else None)"
  by (induction legs) auto

lemma check_position_limits_spec:
  "check_position_limits (mgr_cfg m) (mgr_state m) venue legs =
     (if \<exists>leg \<in> set legs. position_cap_exceeded_spec m venue leg
      then Some (rejected RejectPositionLimit) else None)"
  by (induction legs)
    (auto simp: position_cap_exceeded_spec_def extractAsset_spec Let_def split: option.splits)

lemma additional_notional_sum:
  "additional_notional acc legs = acc + (\<Sum>leg\<leftarrow>legs. leg_Price leg * leg_Size leg)"
  by (induction legs arbitrary: acc) auto

lemma check_symbol_orders_spec:
  "check_symbol_orders cfg st legs =
     (if \<exists>leg \<in> set legs. lookup0 (oc_PerSymbol (rs_OpenOrderCounts st)) (leg_Symbol leg)
            \<ge> moo_PerSymbol (cfg_MaxOpenOrders cfg)
      then Some (rejected RejectSymbolOrders) else None)"
  by (induction legs) auto

text \<open>
  C1. \<open>ValidateSignal\<close> evaluates its checks in the fixed order kill switch, mode
  HALTED, market data blocked for a leg, per-asset position cap, per-venue gross notional,
  daily PnL, and the global, per-venue and per-symbol open-order counts; the result is the
  rejection with the reason of the first check that fails, and the approval when none
  fails. The asset of a leg is the part of its symbol before \<open>/\<close> or, without \<open>/\<close>,
  the one of BTC, ETH, SOL the symbol starts with.
\<close>

theorem ValidateSignal_check_order:
  "ValidateSignal now m signal = first_failure_spec (validation_checks_spec now m signal)
   \<and> extractAsset symbol = asset_of_symbol_spec symbol"
  unfolding ValidateSignal_def validation_checks_spec_def Let_def
    check_data_blocked_spec check_position_limits_spec check_symbol_orders_spec
    additional_notional_sum notional_cap_exceeded_spec_def TotalDailyPnL_def
  by (simp add: not_less extractAsset_spec split: option.splits)

theorem ValidateSignal_check_order_witness:
  "ValidateSignal 1000 test_manager (test_signal 2) = rejected RejectPositionLimit
   \<and> ValidateSignal 1000 test_manager (test_signal (1 / 2)) = approved
   \<and> extractAsset ''SOLUSDT'' = ''SOL''"
  using ValidateSignal_check_order [of 1000 test_manager "test_signal 2" "''SOLUSDT''"]
    ValidateSignal_check_order [of 1000 test_manager "test_signal (1 / 2)" "''SOLUSDT''"]
  by (simp add: validation_checks_spec_def test_manager_def test_signal_def NewManager_def
      NewKillSwitch_def loadState_def NewService_def UpdateOrderBook_def test_book_def
      test_cfg_def IsDataBlocked_def bookKey_def position_cap_exceeded_spec_def
      asset_of_symbol_spec_def notional_cap_exceeded_spec_def lookup0_def NewPnLTracker_def
      todayUTC_def nanosPerDay_def Let_def)

section \<open>Daily loss cap and kill switch\<close>

lemma checkPnLLimits_tracker [simp]:
  "mgr_pnlTracker (checkPnLLimits env m) = mgr_pnlTracker m"
  by (simp add: checkPnLLimits_def Let_def)

lemma checkPnLLimits_cfg [simp]: "mgr_cfg (checkPnLLimits env m) = mgr_cfg m"
  by (simp add: checkPnLLimits_def Let_def)

lemma OnOrderFill_cfg [simp]: "mgr_cfg (OnOrderFill env order pnl m) = mgr_cfg m"
  by (simp add: OnOrderFill_def Let_def)











section \<open>Order lifecycle\<close>

lemmas om_defs = SubmitOrder_def CancelOrder_def UpdateOrderFill_def updateStatus_def
  publishStateChange_def NewOrderManager_def GetOrder_def CleanupStaleOrders_def is_stale_def
  test_request_def filling_gateway_def failing_gateway_def Let_def

lemma SubmitOrder_existing_key:
  assumes "req_IdempotencyKey req \<noteq> []"
    and "om_idempotencyMap m (req_IdempotencyKey req) = Some i"
  shows "SubmitOrder now gateways req m = (Inr (map_of (om_orders m) i), m, [])"
  using assms by (simp add: SubmitOrder_def)

lemma map_of_store_order: "map_of (store_order k v kvs) k' = (if k' = k then Some v else map_of kvs k')"
  by (induction kvs) auto

lemma SubmitOrder_unknown_venue:
  assumes "req_IdempotencyKey req = [] \<or> om_idempotencyMap m (req_IdempotencyKey req) = None"
    and "gateways (req_Venue req) = None"
  shows "fst (SubmitOrder now gateways req m) = Inl (UnknownVenue (req_Venue req))"
    and "map_option ord_Status (GetOrder (req_InternalID req) (fst (snd (SubmitOrder now gateways req m))))
           = Some OrderStatusSubmitFailed"
    and "\<forall>e \<in> set (snd (snd (SubmitOrder now gateways req m))).
           \<forall>v r. e \<noteq> VenuePlaceOrder v r"
  using assms by (auto simp: om_defs map_of_store_order)

lemma SubmitOrder_venue_error:
  assumes "req_IdempotencyKey req = [] \<or> om_idempotencyMap m (req_IdempotencyKey req) = None"
    and "gateways (req_Venue req) = Some gw" and "gw_PlaceOrder gw req = Inl err"
  shows "fst (SubmitOrder now gateways req m) = Inl (PlaceOrderFailed err)"
    and "map_option ord_Status (GetOrder (req_InternalID req) (fst (snd (SubmitOrder now gateways req m))))
           = Some OrderStatusSubmitFailed"
    and "VenuePlaceOrder (req_Venue req) req \<in> set (snd (snd (SubmitOrder now gateways req m)))"
  using assms by (auto simp: om_defs map_of_store_order)

lemma SubmitOrder_venue_ack:
  assumes "req_IdempotencyKey req = [] \<or> om_idempotencyMap m (req_IdempotencyKey req) = None"
    and "gateways (req_Venue req) = Some gw" and "gw_PlaceOrder gw req = Inr ack"
  shows "GetOrder (req_InternalID req) (fst (snd (SubmitOrder now gateways req m)))
           = (case fst (SubmitOrder now gateways req m) of Inr r \<Rightarrow> r | Inl e \<Rightarrow> None)"
    and "map_option ord_Status (GetOrder (req_InternalID req) (fst (snd (SubmitOrder now gateways req m))))
           = Some (ack_Status ack)"
    and "map_option ord_VenueID (GetOrder (req_InternalID req) (fst (snd (SubmitOrder now gateways req m))))
           = Some (ack_VenueID ack)"
    and "VenuePlaceOrder (req_Venue req) req \<in> set (snd (snd (SubmitOrder now gateways req m)))"
  using assms by (auto simp: om_defs map_of_store_order)

text \<open>
  C3. No operation of the order manager should change the status of a terminal order. The
  code does change it: an order the venue filled at once is FILLED; \<open>CancelOrder\<close> on it
  calls the venue and, the venue answering as the dry-run gateway always does, sets the
  status to CANCELLED; \<open>UpdateOrderFill\<close> with a partial fill then moves that cancelled
  order to PARTIAL_FILL.
\<close>

theorem CancelOrder_changes_terminal_status:
  "map_option ord_Status
     (GetOrder 1 (fst (snd (SubmitOrder 100 [''sim'' \<mapsto> filling_gateway] test_request NewOrderManager))))
     = Some OrderStatusFilled
   \<and> IsTerminal OrderStatusFilled
   \<and> map_option ord_Status
     (GetOrder 1 (fst (snd (CancelOrder 200 [''sim'' \<mapsto> filling_gateway] 1
        (fst (snd (SubmitOrder 100 [''sim'' \<mapsto> filling_gateway] test_request NewOrderManager)))))))
     = Some OrderStatusCancelled
   \<and> VenueCancelOrder ''sim'' ''v-1'' \<in> set (snd (snd (CancelOrder 200 [''sim'' \<mapsto> filling_gateway] 1
        (fst (snd (SubmitOrder 100 [''sim'' \<mapsto> filling_gateway] test_request NewOrderManager))))))
   \<and> map_option ord_Status
     (GetOrder 1 (fst (UpdateOrderFill 300 1 (1 / 2) 50000
        (fst (snd (CancelOrder 200 [''sim'' \<mapsto> filling_gateway] 1
        (fst (snd (SubmitOrder 100 [''sim'' \<mapsto> filling_gateway] test_request NewOrderManager)))))))))
     = Some OrderStatusPartialFill"
  by (simp add: om_defs)

text \<open>
  C7. A request whose idempotency key maps to an existing order gets that order back
  (\<open>SubmitOrder_existing_key\<close>), and a request with a new key goes through the stated
  steps. A key whose order the clean-up has removed is neither: a submission to an unknown
  venue fails, the clean-up removes the failed order but leaves its key, and the same
  request, now for a known venue, returns no order and no error, creates nothing,
  publishes nothing and does not call the venue.
\<close>

theorem SubmitOrder_after_cleanup_returns_nothing:
  "map_option ord_Status
     (GetOrder 1 (fst (snd (SubmitOrder 100 Map.empty test_request NewOrderManager))))
     = Some OrderStatusSubmitFailed
   \<and> om_orders (CleanupStaleOrders 1000 500
        (fst (snd (SubmitOrder 100 Map.empty test_request NewOrderManager)))) = []
   \<and> SubmitOrder 2000 [''sim'' \<mapsto> filling_gateway] test_request
        (CleanupStaleOrders 1000 500
          (fst (snd (SubmitOrder 100 Map.empty test_request NewOrderManager))))
       = (Inr None,
          CleanupStaleOrders 1000 500
            (fst (snd (SubmitOrder 100 Map.empty test_request NewOrderManager))),
          [])"
  by (simp add: om_defs)



section \<open>Market fills\<close>

lemma total_available_nonneg:
  "\<forall>l \<in> set levels. 0 \<le> lvl_Size l \<Longrightarrow> 0 \<le> total_available levels"
  unfolding total_available_def by (induction levels) auto

lemma total_available_take_nonneg:
  assumes "\<forall>l \<in> set levels. 0 \<le> lvl_Size l"
  shows "0 \<le> total_available (take i levels)"
proof (rule total_available_nonneg)
  show "\<forall>l \<in> set (take i levels). 0 \<le> lvl_Size l"
    using assms by (meson in_set_takeD)
qed

lemma consumed_spec_Nil [simp]: "consumed_spec [] want = []"
  by (simp add: consumed_spec_def)

lemma consumed_spec_length [simp]: "length (consumed_spec levels want) = length levels"
  by (simp add: consumed_spec_def)

lemma consumed_spec_Cons:
  assumes "0 \<le> want" and "0 \<le> lvl_Size l" and "\<forall>x \<in> set ls. 0 \<le> lvl_Size x"
  shows "consumed_spec (l # ls) want =
           min want (lvl_Size l) # consumed_spec ls (want - min want (lvl_Size l))"
proof -
  have hd: "max 0 (min (lvl_Size l) (want - total_available [])) = min want (lvl_Size l)"
    using assms by (simp add: total_available_def min_def max_def)
  have tl: "max 0 (min (lvl_Size (ls ! i)) (want - total_available (take (Suc i) (l # ls))))
          = max 0 (min (lvl_Size (ls ! i)) (want - min want (lvl_Size l) - total_available (take i ls)))"
    for i
  proof -
    have t: "0 \<le> total_available (take i ls)"
      using assms(3) by (rule total_available_take_nonneg)
    have e: "total_available (take (Suc i) (l # ls)) = lvl_Size l + total_available (take i ls)"
      by (simp add: total_available_def)
    show ?thesis
      using t assms(1,2) unfolding e by (simp add: min_def max_def)
  qed
  have "consumed_spec (l # ls) want =
      max 0 (min (lvl_Size l) (want - total_available [])) #
        map (\<lambda>i. max 0 (min (lvl_Size (ls ! i)) (want - total_available (take (Suc i) (l # ls)))))
          [0..<length ls]"
    by (simp add: consumed_spec_def upt_conv_Cons map_Suc_upt [symmetric] del: upt_Suc)
  then show ?thesis
    by (simp only: hd tl consumed_spec_def)
qed

lemma consumed_spec_zero:
  assumes "\<forall>x \<in> set ls. 0 \<le> lvl_Size x"
  shows "sum_list (consumed_spec ls 0) = 0 \<and> consumed_cost ls 0 = 0"
  using assms
proof (induction ls)
  case Nil
  then show ?case by (simp add: consumed_cost_def)
next
  case (Cons l ls)
  then have c: "consumed_spec (l # ls) 0 = 0 # consumed_spec ls 0"
    using consumed_spec_Cons [of 0 l ls] by simp
  from Cons show ?case
    by (simp add: c consumed_cost_def)
qed

lemma walk_levels_spec:
  assumes "0 \<le> remaining" and "\<forall>x \<in> set levels. 0 \<le> lvl_Size x"
  shows "walk_levels levels remaining totalCost totalFilled =
           (remaining - sum_list (consumed_spec levels remaining),
            totalCost + consumed_cost levels remaining,
            totalFilled + sum_list (consumed_spec levels remaining))"
  using assms
proof (induction levels arbitrary: remaining totalCost totalFilled)
  case Nil
  then show ?case by (simp add: consumed_cost_def)
next
  case (Cons l ls)
  show ?case
  proof (cases "remaining = 0")
    case True
    then show ?thesis
      using consumed_spec_zero [of "l # ls"] Cons.prems by simp
  next
    case False
    let ?a = "min remaining (lvl_Size l)"
    have c: "consumed_spec (l # ls) remaining = ?a # consumed_spec ls (remaining - ?a)"
      using Cons.prems by (intro consumed_spec_Cons) auto
    have r: "0 \<le> remaining - ?a"
      by simp
    have ih: "walk_levels ls (remaining - ?a) (totalCost + ?a * lvl_Price l) (totalFilled + ?a) =
        (remaining - ?a - sum_list (consumed_spec ls (remaining - ?a)),
         totalCost + ?a * lvl_Price l + consumed_cost ls (remaining - ?a),
         totalFilled + ?a + sum_list (consumed_spec ls (remaining - ?a)))"
      using Cons.prems by (intro Cons.IH r) auto
    show ?thesis
      using False by (simp add: Let_def ih c consumed_cost_def)
  qed
qed

lemma sum_consumed_spec:
  assumes "0 \<le> want" and "\<forall>x \<in> set levels. 0 \<le> lvl_Size x"
  shows "sum_list (consumed_spec levels want) = min want (total_available levels)"
  using assms
proof (induction levels arbitrary: want)
  case Nil
  then show ?case by (simp add: total_available_def)
next
  case (Cons l ls)
  let ?a = "min want (lvl_Size l)"
  have c: "consumed_spec (l # ls) want = ?a # consumed_spec ls (want - ?a)"
    using Cons.prems by (intro consumed_spec_Cons) auto
  have ih: "sum_list (consumed_spec ls (want - ?a)) = min (want - ?a) (total_available ls)"
    using Cons.prems by (intro Cons.IH) auto
  have t: "0 \<le> total_available ls"
    using Cons.prems by (intro total_available_nonneg) auto
  have e: "total_available (l # ls) = lvl_Size l + total_available ls"
    by (simp add: total_available_def)
  have "sum_list (consumed_spec (l # ls) want) = ?a + min (want - ?a) (total_available ls)"
    by (simp only: c sum_list.Cons ih)
  also have "\<dots> = min want (total_available (l # ls))"
    using t Cons.prems unfolding e by (auto simp: min_def)
  finally show ?case .
qed

lemma Decimal_Round_error: "\<bar>Decimal_Round p x - x\<bar> \<le> 1 / (2 * 10 ^ p)"
proof -
  have fl: "\<bar>of_int \<lfloor>y + 1 / 2\<rfloor> - y\<bar> \<le> 1 / 2" for y :: rat
    by linarith
  have sc: "\<bar>of_int k / 10 ^ p - y\<bar> = \<bar>of_int k - y * 10 ^ p\<bar> / 10 ^ p" for k :: int and y :: rat
  proof -
    have "of_int k / 10 ^ p - y = (of_int k - y * 10 ^ p) / 10 ^ p"
      by (simp add: field_simps)
    then show ?thesis
      by (simp add: abs_divide del: of_int_diff)
  qed
  have bound: "\<bar>of_int \<lfloor>y * 10 ^ p + 1 / 2\<rfloor> / 10 ^ p - y\<bar> \<le> 1 / (2 * 10 ^ p)" for y :: rat
  proof -
    have "\<bar>of_int \<lfloor>y * 10 ^ p + 1 / 2\<rfloor> - y * 10 ^ p\<bar> / 10 ^ p \<le> (1 / 2) / 10 ^ p"
      using fl [of "y * 10 ^ p"] by (intro divide_right_mono) auto
    then show ?thesis
      by (simp add: sc)
  qed
  show ?thesis
  proof (cases "x < 0")
    case True
    have "\<bar>Decimal_Round p x - x\<bar> = \<bar>of_int \<lfloor>(- x) * 10 ^ p + 1 / 2\<rfloor> / 10 ^ p - (- x)\<bar>"
      using True by (simp add: Decimal_Round_def abs_minus_commute add.commute)
    then show ?thesis
      using bound [of "- x"] by simp
  next
    case False
    then show ?thesis
      using bound [of x] by (simp add: Decimal_Round_def)
  qed
qed

lemma Decimal_Round_exact:
  assumes "x * 10 ^ p = of_int k"
  shows "Decimal_Round p x = x"
proof -
  have fl: "\<lfloor>rat_of_int j + 1 / 2\<rfloor> = j" for j
    by linarith
  have x: "x = of_int k / 10 ^ p"
    using assms by (simp add: field_simps)
  show ?thesis
  proof (cases "x < 0")
    case True
    have "(- x) * 10 ^ p = of_int (- k)"
      using assms by simp
    then have "\<lfloor>(- x) * 10 ^ p + 1 / 2\<rfloor> = - k"
      by (simp only: fl)
    with True show ?thesis
      by (simp add: Decimal_Round_def x)
  next
    case False
    have "\<lfloor>x * 10 ^ p + 1 / 2\<rfloor> = k"
      by (simp only: assms fl)
    with False show ?thesis
      by (simp add: Decimal_Round_def x)
  qed
qed

lemma simulateMarketFill_spec:
  assumes "levels \<noteq> []" and "\<forall>l \<in> set levels. 0 < lvl_Size l" and "0 < sz"
  shows "simulateMarketFill levels sz =
           (Decimal_DivRound (consumed_cost levels sz) (sum_list (consumed_spec levels sz))
              DivisionPrecision,
            min sz (total_available levels))"
proof -
  have nn: "\<forall>l \<in> set levels. 0 \<le> lvl_Size l"
    using assms(2) by (simp add: less_imp_le)
  obtain l ls where ls: "levels = l # ls"
    using assms(1) by (cases levels) auto
  have "0 \<le> total_available ls"
    using nn ls by (intro total_available_nonneg) auto
  then have pos: "0 < total_available levels"
    using assms(2) ls by (simp add: total_available_def add_pos_nonneg)
  have sm: "sum_list (consumed_spec levels sz) = min sz (total_available levels)"
    using assms(3) nn by (intro sum_consumed_spec) auto
  have w: "walk_levels levels sz 0 0 =
      (sz - sum_list (consumed_spec levels sz), consumed_cost levels sz,
       sum_list (consumed_spec levels sz))"
    using walk_levels_spec [of sz levels 0 0] assms(3) nn by simp
  have "min sz (total_available levels) \<noteq> 0"
    using pos assms(3) by (simp add: min_def)
  then show ?thesis
    by (simp add: simulateMarketFill_def w sm)
qed

text \<open>
  C5, as stated, fails where it says that the fill price equals the size-weighted average:
  a market buy of size 3 against asks of size 1 at price 1 and size 2 at price 2 takes both
  levels, the average is 5/3, and the fill price is 1.6666666666666667, the quotient as the
  decimal division rounds it.
\<close>

theorem fill_price_is_rounded_average:
  "req_OrderType (partial_fill_order\<lparr>req_Size := 3\<rparr>) = OrderTypeMarket
   \<and> \<not> fst (reject_draw count_draw (NewFillSimulator count_source 0 0 0 2 5))
   \<and> weighted_average_spec (opposite_side (partial_fill_order\<lparr>req_Size := 3\<rparr>) two_level_book) 3
       = 5 / 3
   \<and> sf_FillPrice (fst (SimulateFill count_draw (partial_fill_order\<lparr>req_Size := 3\<rparr>)
         (Some two_level_book) (NewFillSimulator count_source 0 0 0 2 5)))
       = 16666666666666667 / 10 ^ 16
   \<and> sf_FillPrice (fst (SimulateFill count_draw (partial_fill_order\<lparr>req_Size := 3\<rparr>)
         (Some two_level_book) (NewFillSimulator count_source 0 0 0 2 5)))
       \<noteq> weighted_average_spec (opposite_side (partial_fill_order\<lparr>req_Size := 3\<rparr>) two_level_book) 3"
proof -
  have a: "req_OrderType (partial_fill_order\<lparr>req_Size := 3\<rparr>) = OrderTypeMarket"
    by (simp add: partial_fill_order_def)
  have b: "\<not> fst (reject_draw count_draw (NewFillSimulator count_source 0 0 0 2 5))"
    by (simp add: reject_draw_def NewFillSimulator_def)
  have c: "weighted_average_spec (opposite_side (partial_fill_order\<lparr>req_Size := 3\<rparr>) two_level_book) 3
       = 5 / 3"
    by code_simp
  have d: "sf_FillPrice (fst (SimulateFill count_draw (partial_fill_order\<lparr>req_Size := 3\<rparr>)
         (Some two_level_book) (NewFillSimulator count_source 0 0 0 2 5)))
       = 16666666666666667 / 10 ^ 16"
    by code_simp
  have e: "(16666666666666667 / 10 ^ 16 :: rat) \<noteq> 5 / 3"
    by simp
  show ?thesis
    using a b c d e by simp
qed

text \<open>
  C5, amended. A market order that the reject injection does not hit is REJECTED on a nil
  book and on an empty opposite side. Against an opposite side of levels with positive
  sizes, an order of positive size is filled for the minimum of its size and the liquidity
  on that side; the fill price is the size-weighted average of what the walk takes from
  the levels, rounded to 16 fractional digits by the decimal division: it is within
  \<open>5 * 10^-17\<close> of the average and is the average itself where that has no more than 16
  fractional digits; the status is FILLED when the whole size is taken and PARTIAL_FILL
  otherwise. A market buy of size 1 against the single ask level of price 50000 and size
  0.3 is a PARTIAL_FILL of 0.3 at 50000.
\<close>

theorem market_order_fill:
  "(req_OrderType order = OrderTypeMarket \<and> \<not> fst (reject_draw Float64 s) \<longrightarrow>
      sf_Status (fst (SimulateFill Float64 order None s)) = OrderStatusRejected
    \<and> (opposite_side order book = [] \<longrightarrow>
         sf_Status (fst (SimulateFill Float64 order (Some book) s)) = OrderStatusRejected)
    \<and> (opposite_side order book \<noteq> [] \<and> (\<forall>l \<in> set (opposite_side order book). 0 < lvl_Size l)
         \<and> 0 < req_Size order \<longrightarrow>
         sf_FillSize (fst (SimulateFill Float64 order (Some book) s))
           = min (req_Size order) (total_available (opposite_side order book))
       \<and> sf_FillPrice (fst (SimulateFill Float64 order (Some book) s))
           = Decimal_DivRound (consumed_cost (opposite_side order book) (req_Size order))
               (sum_list (consumed_spec (opposite_side order book) (req_Size order)))
               DivisionPrecision
       \<and> \<bar>sf_FillPrice (fst (SimulateFill Float64 order (Some book) s))
            - weighted_average_spec (opposite_side order book) (req_Size order)\<bar>
           \<le> 1 / (2 * 10 ^ 16)
       \<and> (\<forall>k. weighted_average_spec (opposite_side order book) (req_Size order) * 10 ^ 16
                = of_int k \<longrightarrow>
            sf_FillPrice (fst (SimulateFill Float64 order (Some book) s))
              = weighted_average_spec (opposite_side order book) (req_Size order))
       \<and> sf_Status (fst (SimulateFill Float64 order (Some book) s))
           = (if req_Size order \<le> total_available (opposite_side order book)
              then OrderStatusFilled else OrderStatusPartialFill)))
   \<and> fst (SimulateFill Float64 partial_fill_order (Some partial_fill_book)
            (NewFillSimulator NewSource now 0 0 2 5))
       = \<lparr>sf_FillPrice = 50000, sf_FillSize = 3 / 10, sf_Fee = 15 / 2, sf_LatencyMs = 0,
          sf_Status = OrderStatusPartialFill\<rparr>"
proof (intro conjI impI)
  assume a: "req_OrderType order = OrderTypeMarket \<and> \<not> fst (reject_draw Float64 s)"
  then obtain g where d: "reject_draw Float64 s = (False, g)"
    by (cases "reject_draw Float64 s") auto
  show "sf_Status (fst (SimulateFill Float64 order None s)) = OrderStatusRejected"
    by (simp add: SimulateFill_def d rejected_fill_def)
  {
    assume "opposite_side order book = []"
    then show "sf_Status (fst (SimulateFill Float64 order (Some book) s)) = OrderStatusRejected"
      using a by (simp add: SimulateFill_def d fill_against_book_def opposite_side_def
          rejected_fill_def split: if_splits)
  }
  {
    let ?lv = "opposite_side order book"
    let ?sz = "req_Size order"
    assume h: "?lv \<noteq> [] \<and> (\<forall>l \<in> set ?lv. 0 < lvl_Size l) \<and> 0 < ?sz"
    have run: "fst (SimulateFill Float64 order (Some book) s)
        = finish_fill s order (fs_takerFeeBps s) (simulateMarketFill ?lv ?sz)"
      using a h by (cases "req_Side order = SideBuy")
        (simp_all add: SimulateFill_def d fill_against_book_def opposite_side_def)
    have sp: "simulateMarketFill ?lv ?sz =
        (Decimal_DivRound (consumed_cost ?lv ?sz) (sum_list (consumed_spec ?lv ?sz))
           DivisionPrecision, min ?sz (total_available ?lv))"
      using h by (intro simulateMarketFill_spec) auto
    show "sf_FillSize (fst (SimulateFill Float64 order (Some book) s))
        = min ?sz (total_available ?lv)"
      by (simp add: run sp finish_fill_def)
    show price: "sf_FillPrice (fst (SimulateFill Float64 order (Some book) s))
        = Decimal_DivRound (consumed_cost ?lv ?sz) (sum_list (consumed_spec ?lv ?sz))
            DivisionPrecision"
      by (simp add: run sp finish_fill_def)
    have avg: "sf_FillPrice (fst (SimulateFill Float64 order (Some book) s))
        = Decimal_Round 16 (weighted_average_spec ?lv ?sz)"
      by (simp add: price Decimal_DivRound_def DivisionPrecision_def weighted_average_spec_def)
    show "\<bar>sf_FillPrice (fst (SimulateFill Float64 order (Some book) s))
        - weighted_average_spec ?lv ?sz\<bar> \<le> 1 / (2 * 10 ^ 16)"
      unfolding avg by (rule Decimal_Round_error)
    show "\<forall>k. weighted_average_spec ?lv ?sz * 10 ^ 16 = of_int k \<longrightarrow>
        sf_FillPrice (fst (SimulateFill Float64 order (Some book) s))
          = weighted_average_spec ?lv ?sz"
      unfolding avg by (auto intro: Decimal_Round_exact)
    show "sf_Status (fst (SimulateFill Float64 order (Some book) s))
        = (if ?sz \<le> total_available ?lv then OrderStatusFilled else OrderStatusPartialFill)"
      by (simp add: run sp finish_fill_def min_def)
  }
next
  show "fst (SimulateFill Float64 partial_fill_order (Some partial_fill_book)
            (NewFillSimulator NewSource now 0 0 2 5))
       = \<lparr>sf_FillPrice = 50000, sf_FillSize = 3 / 10, sf_Fee = 15 / 2, sf_LatencyMs = 0,
          sf_Status = OrderStatusPartialFill\<rparr>"
  proof -
    have p: "Decimal_DivRound 15000 (3 / 10) DivisionPrecision = 50000"
      unfolding Decimal_DivRound_def DivisionPrecision_def
      using Decimal_Round_exact [of "15000 / (3 / 10)" 16 500000000000000000000] by simp
    have f: "Decimal_DivRound 75000 10000 DivisionPrecision = 15 / 2"
      unfolding Decimal_DivRound_def DivisionPrecision_def
      using Decimal_Round_exact [of "75000 / 10000" 16 75000000000000000] by simp
    show ?thesis
      by (simp add: SimulateFill_def reject_draw_def NewFillSimulator_def fill_against_book_def
          partial_fill_order_def partial_fill_book_def simulateMarketFill_def finish_fill_def
          Let_def p f)
  qed
qed

theorem market_order_fill_witness:
  "req_OrderType partial_fill_order = OrderTypeMarket
   \<and> \<not> fst (reject_draw count_draw (NewFillSimulator count_source 0 0 0 2 5))
   \<and> opposite_side partial_fill_order partial_fill_book \<noteq> []
   \<and> 0 < req_Size partial_fill_order
   \<and> sf_FillSize (fst (SimulateFill count_draw partial_fill_order (Some partial_fill_book)
         (NewFillSimulator count_source 0 0 0 2 5))) = 3 / 10
   \<and> sf_FillPrice (fst (SimulateFill count_draw partial_fill_order (Some partial_fill_book)
         (NewFillSimulator count_source 0 0 0 2 5))) = 50000
   \<and> sf_Status (fst (SimulateFill count_draw partial_fill_order (Some partial_fill_book)
         (NewFillSimulator count_source 0 0 0 2 5))) = OrderStatusPartialFill"
proof -
  let ?s = "NewFillSimulator count_source 0 0 0 2 5"
  have a: "req_OrderType partial_fill_order = OrderTypeMarket \<and> \<not> fst (reject_draw count_draw ?s)"
    by (simp add: partial_fill_order_def reject_draw_def NewFillSimulator_def)
  have b: "opposite_side partial_fill_order partial_fill_book \<noteq> []
      \<and> (\<forall>l \<in> set (opposite_side partial_fill_order partial_fill_book). 0 < lvl_Size l)
      \<and> 0 < req_Size partial_fill_order"
    by (simp add: opposite_side_def partial_fill_order_def partial_fill_book_def)
  have w: "weighted_average_spec (opposite_side partial_fill_order partial_fill_book)
      (req_Size partial_fill_order) = 50000"
    by (simp add: weighted_average_spec_def consumed_cost_def consumed_spec_def
        total_available_def opposite_side_def partial_fill_order_def partial_fill_book_def)
  have k: "weighted_average_spec (opposite_side partial_fill_order partial_fill_book)
      (req_Size partial_fill_order) * 10 ^ 16 = of_int 500000000000000000000"
    by (simp add: w)
  have t: "total_available (opposite_side partial_fill_order partial_fill_book) = 3 / 10"
    by (simp add: total_available_def opposite_side_def partial_fill_order_def partial_fill_book_def)
  have r: "req_Size partial_fill_order = 1"
    by (simp add: partial_fill_order_def)
  from market_order_fill [of partial_fill_order count_draw ?s partial_fill_book] a b
  have "sf_FillSize (fst (SimulateFill count_draw partial_fill_order (Some partial_fill_book) ?s))
        = min (req_Size partial_fill_order)
            (total_available (opposite_side partial_fill_order partial_fill_book))"
    and "\<forall>k. weighted_average_spec (opposite_side partial_fill_order partial_fill_book)
            (req_Size partial_fill_order) * 10 ^ 16 = of_int k \<longrightarrow>
         sf_FillPrice (fst (SimulateFill count_draw partial_fill_order (Some partial_fill_book) ?s))
           = weighted_average_spec (opposite_side partial_fill_order partial_fill_book)
               (req_Size partial_fill_order)"
    and "sf_Status (fst (SimulateFill count_draw partial_fill_order (Some partial_fill_book) ?s))
        = (if req_Size partial_fill_order
              \<le> total_available (opposite_side partial_fill_order partial_fill_book)
           then OrderStatusFilled else OrderStatusPartialFill)"
    by blast+
  then show ?thesis
    using a b k unfolding t r w by (simp del: of_int_numeral)
qed

section \<open>Determinism of the fill simulator\<close>

subsection \<open>Rounding to \<^verbatim>\<open>float64\<close>\<close>

lemma bitlen_between:
  assumes "2 ^ n \<le> z" and "z < 2 ^ Suc n"
  shows "bitlen z = int n + 1"
proof -
  have "(0::int) < 2 ^ n" by simp
  then have pos: "0 < z" using assms(1) by linarith
  from bitlen_bounds [OF pos]
  have lo: "2 ^ nat (bitlen z - 1) \<le> z" and hi: "z < 2 ^ nat (bitlen z)" by simp_all
  have "(2::int) ^ nat (bitlen z - 1) < 2 ^ Suc n" using lo assms(2) by linarith
  hence a: "nat (bitlen z - 1) < Suc n" by (simp only: power_strict_increasing_iff rel_simps)
  have "(2::int) ^ n < 2 ^ nat (bitlen z)" using hi assms(1) by linarith
  hence b: "n < nat (bitlen z)" by (simp only: power_strict_increasing_iff rel_simps)
  from a b show ?thesis by linarith
qed

lemma round_half_even_of_int: "round_half_even (of_int n) = n"
  by (simp add: round_half_even_def)

lemma float64_round_scaled:
  fixes x :: real
  assumes lo: "2 ^ 52 \<le> \<bar>x\<bar> * 2 ^ k" and hi: "\<bar>x\<bar> * 2 ^ k < 2 ^ 53" and k: "k \<le> 1074"
  shows "float64_round x = sgn x * (of_int (round_half_even (\<bar>x\<bar> * 2 ^ k)) / 2 ^ k)"
proof -
  define j where "j = 1074 - k"
  have kj: "1074 = k + j" using k by (simp add: j_def)
  define a where "a = \<bar>x\<bar> * 2 ^ 1074"
  have a: "a = (\<bar>x\<bar> * 2 ^ k) * 2 ^ j" by (simp add: a_def kj power_add)
  have p: "(0::real) < 2 ^ j" by simp
  have "2 ^ 52 * 2 ^ j \<le> a" unfolding a using lo p by (simp only: mult_le_cancel_right_pos)
  hence "of_int (2 ^ (52 + j)) \<le> a" by (simp add: power_add)
  hence l1: "(2::int) ^ (52 + j) \<le> \<lfloor>a\<rfloor>" by (simp only: le_floor_iff)
  have "a < 2 ^ 53 * 2 ^ j" unfolding a using hi p by (simp only: mult_less_cancel_right_pos)
  hence "a < of_int (2 ^ Suc (52 + j))" by (simp add: power_add)
  hence l2: "\<lfloor>a\<rfloor> < (2::int) ^ Suc (52 + j)" by (simp only: floor_less_iff)
  have bl: "bitlen \<lfloor>a\<rfloor> = int (52 + j) + 1" by (rule bitlen_between [OF l1 l2])
  have ulp: "nat (bitlen \<lfloor>a\<rfloor> - 53) = j" by (simp add: bl)
  have q: "a / 2 ^ j = \<bar>x\<bar> * 2 ^ k" by (simp add: a)
  have "float64_round x = sgn x * (of_int (round_half_even (a / 2 ^ j)) * 2 ^ j / 2 ^ 1074)"
    unfolding float64_round_def Let_def a_def [symmetric] ulp ..
  also have "\<dots> = sgn x * (of_int (round_half_even (\<bar>x\<bar> * 2 ^ k)) * 2 ^ j / 2 ^ (k + j))"
    by (simp only: q kj)
  also have "\<dots> = sgn x * (of_int (round_half_even (\<bar>x\<bar> * 2 ^ k)) / 2 ^ k)"
    by (simp add: power_add)
  finally show ?thesis .
qed

lemma float64_round_exact:
  assumes "2 ^ 52 \<le> m" and "m < 2 ^ 53" and "k \<le> 1074"
  shows "float64_round (of_int m / 2 ^ k) = of_int m / 2 ^ k"
proof -
  have "(0::int) < 2 ^ 52" by simp
  then have m: "0 < m" using assms(1) by linarith
  have e: "\<bar>of_int m / 2 ^ k :: real\<bar> * 2 ^ k = of_int m" using m by simp
  have "(2::real) ^ 52 \<le> of_int m" using assms(1) by (metis of_int_le_iff of_int_numeral of_int_power)
  moreover have "of_int m < (2::real) ^ 53" using assms(2) by (metis of_int_less_iff of_int_numeral of_int_power)
  ultimately have "float64_round (of_int m / 2 ^ k)
      = sgn (of_int m / 2 ^ k :: real) * (of_int (round_half_even (\<bar>of_int m / 2 ^ k :: real\<bar> * 2 ^ k)) / 2 ^ k)"
    using assms(3) by (intro float64_round_scaled) (simp_all only: e)
  also have "\<dots> = of_int m / 2 ^ k"
    using m by (simp only: e round_half_even_of_int) (simp add: sgn_if)
  finally show ?thesis .
qed

lemma float64_round_zero: "float64_round 0 = 0"
  by (simp add: float64_round_def)

lemma float64_round_25: "float64_round 25 = 25"
  using float64_round_exact [of 7036874417766400 48] by simp

lemma float64_round_50: "float64_round 50 = 50"
  using float64_round_exact [of 7036874417766400 47] by simp

text \<open>
  The reject test compares the rounded product: for the draw \<open>3359940775616483 / 2^53\<close> and
  the rate 37.302836104663264, which is \<open>5249907461900755 / 2^47\<close>, the exact product is
  below the rate, the \<^verbatim>\<open>float64\<close> product is the rate, and the run is not rejected.
\<close>

lemma float64_round_example:
  "float64_round (3359940775616483 / 2 ^ 53 * 100) = 5249907461900755 / 2 ^ 47"
proof -
  have r: "round_half_even (\<bar>3359940775616483 / 2 ^ 53 * 100\<bar> * 2 ^ 47) = 5249907461900755"
    unfolding round_half_even_def by code_simp
  have "sgn (3359940775616483 / 2 ^ 53 * 100 :: real) = 1" by (simp add: sgn_if)
  thus ?thesis
    using float64_round_scaled [of "3359940775616483 / 2 ^ 53 * 100" 47]
    by (simp only: r) simp
qed

lemma reject_draw_rounds_product:
  "3359940775616483 / 2 ^ 53 * 100 < (5249907461900755 / 2 ^ 47 :: real)
   \<and> \<not> fst (reject_draw (\<lambda>g. (3359940775616483 / 2 ^ 53, g))
        \<lparr>fs_latencyMs = 0, fs_rejectRatePct = 5249907461900755 / 2 ^ 47,
         fs_makerFeeBps = 2, fs_takerFeeBps = 5, fs_rng = ()\<rparr>)"
proof -
  have h: "fst (reject_draw (\<lambda>g. (3359940775616483 / 2 ^ 53, g))
        \<lparr>fs_latencyMs = 0, fs_rejectRatePct = 5249907461900755 / 2 ^ 47,
         fs_makerFeeBps = 2, fs_takerFeeBps = 5, fs_rng = ()\<rparr>)
     = (float64_round (3359940775616483 / 2 ^ 53 * 100) < 5249907461900755 / 2 ^ 47)"
    by (simp add: reject_draw_def)
  have "3359940775616483 / 2 ^ 53 * 100 < (5249907461900755 / 2 ^ 47 :: real)"
    by simp
  then show ?thesis
    by (simp only: h float64_round_example less_irrefl simp_thms)
qed

subsection \<open>What a run reads and what it leaves\<close>

lemma fill_against_book_sides:
  assumes "req_OrderType o1 = req_OrderType o2" and "req_Side o1 = req_Side o2"
    and "req_Size o1 = req_Size o2" and "req_Price o1 = req_Price o2"
    and "ob_Bids b1 = ob_Bids b2" and "ob_Asks b1 = ob_Asks b2"
  shows "fill_against_book s o1 b1 = fill_against_book s o2 b2"
  using assms
  by (simp add: fill_against_book_def finish_fill_def resting_fill_def
      split: OrderType.splits list.splits)

lemma fill_against_book_config:
  "fill_against_book (s\<lparr>fs_rejectRatePct := r, fs_rng := g\<rparr>) order b = fill_against_book s order b"
  "fill_against_book (s\<lparr>fs_rng := g\<rparr>) order b = fill_against_book s order b"
  "fill_against_book (s\<lparr>fs_rejectRatePct := r\<rparr>) order b = fill_against_book s order b"
  by (simp_all add: fill_against_book_def finish_fill_def resting_fill_def rejected_fill_def
      split: OrderType.splits list.splits)

lemma SimulateFill_sides:
  assumes "req_OrderType o1 = req_OrderType o2" and "req_Side o1 = req_Side o2"
    and "req_Size o1 = req_Size o2" and "req_Price o1 = req_Price o2"
    and "map_option (\<lambda>b. (ob_Bids b, ob_Asks b)) b1 = map_option (\<lambda>b. (ob_Bids b, ob_Asks b)) b2"
  shows "SimulateFill Float64 o1 b1 s = SimulateFill Float64 o2 b2 s"
proof (cases b1)
  case None
  then have "b2 = None"
    using assms(5) by simp
  with None show ?thesis
    by (simp add: SimulateFill_def split: prod.splits)
next
  case (Some x1)
  then obtain x2 where x2: "b2 = Some x2" and "ob_Bids x1 = ob_Bids x2" and "ob_Asks x1 = ob_Asks x2"
    using assms(5) by (cases b2) auto
  then have "fill_against_book s o1 x1 = fill_against_book s o2 x2"
    using assms(1-4) by (intro fill_against_book_sides)
  then show ?thesis
    by (simp add: SimulateFill_def Some x2 split: prod.splits)
qed

lemma SimulateFill_no_draw:
  assumes "fs_rejectRatePct s \<le> 0"
  shows "snd (SimulateFill Float64 order book s) = s"
    and "fst (SimulateFill Float64 order book s)
           = fst (SimulateFill Float64' order book (s\<lparr>fs_rejectRatePct := 0, fs_rng := g\<rparr>))"
  using assms
  by (simp_all add: SimulateFill_def reject_draw_def rejected_fill_def fill_against_book_config
      split: option.splits)

lemma SimulateFill_draw:
  assumes "0 < fs_rejectRatePct s"
  shows "snd (SimulateFill Float64 order book s) = s\<lparr>fs_rng := snd (Float64 (fs_rng s))\<rparr>"
    and "fst (SimulateFill Float64 order book s)
           = (if float64_round (fst (Float64 (fs_rng s)) * 100) < fs_rejectRatePct s
              then \<lparr>sf_FillPrice = 0, sf_FillSize = 0, sf_Fee = 0, sf_LatencyMs = fs_latencyMs s,
                    sf_Status = OrderStatusRejected\<rparr>
              else fst (SimulateFill Float64 order book (s\<lparr>fs_rejectRatePct := 0\<rparr>)))"
  using assms
  by (simp_all add: SimulateFill_def reject_draw_def rejected_fill_def fill_against_book_config
      split: option.splits prod.splits)

lemma partial_fill_at_rate_zero:
  "fst (SimulateFill Float64 partial_fill_order (Some partial_fill_book)
     \<lparr>fs_latencyMs = 0, fs_rejectRatePct = 0, fs_makerFeeBps = 2, fs_takerFeeBps = 5, fs_rng = g\<rparr>)
   = \<lparr>sf_FillPrice = 50000, sf_FillSize = 3 / 10, sf_Fee = 15 / 2, sf_LatencyMs = 0,
      sf_Status = OrderStatusPartialFill\<rparr>"
proof -
  have p: "Decimal_DivRound 15000 (3 / 10) DivisionPrecision = 50000"
    unfolding Decimal_DivRound_def DivisionPrecision_def
    using Decimal_Round_exact [of "15000 / (3 / 10)" 16 500000000000000000000] by simp
  have f: "Decimal_DivRound 75000 10000 DivisionPrecision = 15 / 2"
    unfolding Decimal_DivRound_def DivisionPrecision_def
    using Decimal_Round_exact [of "75000 / 10000" 16 75000000000000000] by simp
  show ?thesis
    by (simp add: SimulateFill_def reject_draw_def fill_against_book_def
        partial_fill_order_def partial_fill_book_def simulateMarketFill_def finish_fill_def
        Let_def p f)
qed

lemma lcg_first_draws:
  "lcg_source 1 = 1" "lcg_source 2 = 2"
  "lcg_draw 1 = (1 / 4, 1103527590)" "lcg_draw (Suc 0) = (1 / 4, 1103527590)"
  "lcg_draw 1103527590 = (1 / 2, 377401575)"
  "lcg_draw 2 = (1 / 2, 59559187)"
  by (simp_all add: lcg_source_def lcg_draw_def)

text \<open>
  C6, as stated, fails: \<^verbatim>\<open>NewFillSimulator\<close> takes no seed, it seeds the generator from
  the clock, and a run with a positive reject rate consumes a draw. With a reject rate of 50
  and a generator whose first two draws are 1/4 and 1/2, two successive runs of one
  simulator on the same order and book give REJECTED and then a PARTIAL_FILL of 0.3 at
  50000; a simulator built with the same arguments at another clock reading, whose first
  draw is 1/2, gives that PARTIAL_FILL on its first run.
\<close>

theorem successive_fills_differ:
  "fst (SimulateFill lcg_draw partial_fill_order (Some partial_fill_book)
          (NewFillSimulator lcg_source 1 0 50 2 5))
     = \<lparr>sf_FillPrice = 0, sf_FillSize = 0, sf_Fee = 0, sf_LatencyMs = 0,
        sf_Status = OrderStatusRejected\<rparr>
   \<and> fst (SimulateFill lcg_draw partial_fill_order (Some partial_fill_book)
          (snd (SimulateFill lcg_draw partial_fill_order (Some partial_fill_book)
             (NewFillSimulator lcg_source 1 0 50 2 5))))
     = \<lparr>sf_FillPrice = 50000, sf_FillSize = 3 / 10, sf_Fee = 15 / 2, sf_LatencyMs = 0,
        sf_Status = OrderStatusPartialFill\<rparr>
   \<and> fst (SimulateFill lcg_draw partial_fill_order (Some partial_fill_book)
          (NewFillSimulator lcg_source 2 0 50 2 5))
     = \<lparr>sf_FillPrice = 50000, sf_FillSize = 3 / 10, sf_Fee = 15 / 2, sf_LatencyMs = 0,
        sf_Status = OrderStatusPartialFill\<rparr>"
proof -
  let ?s = "\<lambda>g. \<lparr>fs_latencyMs = 0, fs_rejectRatePct = 50, fs_makerFeeBps = 2, fs_takerFeeBps = 5,
               fs_rng = g :: nat\<rparr>"
  have s1: "NewFillSimulator lcg_source 1 0 50 2 5 = ?s 1"
    and s2: "NewFillSimulator lcg_source 2 0 50 2 5 = ?s 2"
    by (simp_all add: NewFillSimulator_def lcg_first_draws)
  have r1: "SimulateFill lcg_draw partial_fill_order (Some partial_fill_book) (?s 1)
      = (\<lparr>sf_FillPrice = 0, sf_FillSize = 0, sf_Fee = 0, sf_LatencyMs = 0,
          sf_Status = OrderStatusRejected\<rparr>, ?s 1103527590)"
    by (simp add: SimulateFill_def reject_draw_def lcg_first_draws float64_round_25
        rejected_fill_def)
  have z: "fst (SimulateFill lcg_draw partial_fill_order (Some partial_fill_book) ((?s g)\<lparr>fs_rejectRatePct := 0\<rparr>))
      = \<lparr>sf_FillPrice = 50000, sf_FillSize = 3 / 10, sf_Fee = 15 / 2, sf_LatencyMs = 0,
          sf_Status = OrderStatusPartialFill\<rparr>" for g
    using partial_fill_at_rate_zero [of lcg_draw g] by simp
  have r2: "fst (SimulateFill lcg_draw partial_fill_order (Some partial_fill_book) (?s 1103527590))
      = \<lparr>sf_FillPrice = 50000, sf_FillSize = 3 / 10, sf_Fee = 15 / 2, sf_LatencyMs = 0,
          sf_Status = OrderStatusPartialFill\<rparr>"
    using SimulateFill_draw(2) [of "?s 1103527590" lcg_draw partial_fill_order "Some partial_fill_book"]
    by (simp only: z) (simp add: lcg_first_draws float64_round_50)
  have r3: "fst (SimulateFill lcg_draw partial_fill_order (Some partial_fill_book) (?s 2))
      = \<lparr>sf_FillPrice = 50000, sf_FillSize = 3 / 10, sf_Fee = 15 / 2, sf_LatencyMs = 0,
          sf_Status = OrderStatusPartialFill\<rparr>"
    using SimulateFill_draw(2) [of "?s 2" lcg_draw partial_fill_order "Some partial_fill_book"]
    by (simp only: z) (simp add: lcg_first_draws float64_round_50)
  show ?thesis
    unfolding s1 s2 r1 by (simp only: r2 r3 snd_conv fst_conv simp_thms)
qed

text \<open>
  C6, amended. The fill is determined by the order, the book, the configuration of the
  simulator and the state of its generator; the seed is the clock reading at construction,
  not an input. With a reject rate of zero or less a run draws nothing and leaves the
  simulator as it was, so two runs on the same order and book give the same fill, whatever
  the generator. With a positive reject rate a run makes one draw and advances the
  generator; it is REJECTED with zero price, size and fee exactly when the
  \<^verbatim>\<open>float64\<close> product of the draw and 100 is below the rate, and otherwise gives the fill
  of rate zero; the second of two successive runs is decided in the same way by the second
  draw. A simulator in a given state gives the same fill and reaches the same state for
  orders equal in type, side, size and price and books equal in bids and asks.
\<close>

theorem SimulateFill_determined_by_generator_state:
  "fs_rng (NewFillSimulator NewSource now latencyMs rejectRatePct makerFeeBps takerFeeBps)
     = NewSource now
   \<and> fs_rejectRatePct (NewFillSimulator NewSource now latencyMs rejectRatePct makerFeeBps takerFeeBps)
     = rejectRatePct
   \<and> (fs_rejectRatePct s \<le> 0 \<longrightarrow>
        snd (SimulateFill Float64 order book s) = s
      \<and> fst (SimulateFill Float64 order book (snd (SimulateFill Float64 order book s)))
          = fst (SimulateFill Float64 order book s)
      \<and> fst (SimulateFill Float64 order book s)
          = fst (SimulateFill Float64' order book (s\<lparr>fs_rejectRatePct := 0, fs_rng := g\<rparr>)))
   \<and> (0 < fs_rejectRatePct s \<longrightarrow>
        snd (SimulateFill Float64 order book s) = s\<lparr>fs_rng := snd (Float64 (fs_rng s))\<rparr>
      \<and> fst (SimulateFill Float64 order book s)
          = (if float64_round (fst (Float64 (fs_rng s)) * 100) < fs_rejectRatePct s
             then \<lparr>sf_FillPrice = 0, sf_FillSize = 0, sf_Fee = 0, sf_LatencyMs = fs_latencyMs s,
                   sf_Status = OrderStatusRejected\<rparr>
             else fst (SimulateFill Float64 order book (s\<lparr>fs_rejectRatePct := 0\<rparr>)))
      \<and> fst (SimulateFill Float64 order book (snd (SimulateFill Float64 order book s)))
          = (if float64_round (fst (Float64 (snd (Float64 (fs_rng s)))) * 100) < fs_rejectRatePct s
             then \<lparr>sf_FillPrice = 0, sf_FillSize = 0, sf_Fee = 0, sf_LatencyMs = fs_latencyMs s,
                   sf_Status = OrderStatusRejected\<rparr>
             else fst (SimulateFill Float64 order book (s\<lparr>fs_rejectRatePct := 0\<rparr>))))
   \<and> (req_OrderType order = req_OrderType o2 \<and> req_Side order = req_Side o2
        \<and> req_Size order = req_Size o2 \<and> req_Price order = req_Price o2
        \<and> map_option (\<lambda>b. (ob_Bids b, ob_Asks b)) book = map_option (\<lambda>b. (ob_Bids b, ob_Asks b)) b2
      \<longrightarrow> SimulateFill Float64 order book s = SimulateFill Float64 o2 b2 s)"
proof (intro conjI impI)
  show "fs_rng (NewFillSimulator NewSource now latencyMs rejectRatePct makerFeeBps takerFeeBps)
     = NewSource now"
    by (simp add: NewFillSimulator_def)
  show "fs_rejectRatePct (NewFillSimulator NewSource now latencyMs rejectRatePct makerFeeBps takerFeeBps)
     = rejectRatePct"
    by (simp add: NewFillSimulator_def)
next
  assume r: "fs_rejectRatePct s \<le> 0"
  show same: "snd (SimulateFill Float64 order book s) = s"
    using r by (rule SimulateFill_no_draw)
  show "fst (SimulateFill Float64 order book (snd (SimulateFill Float64 order book s)))
      = fst (SimulateFill Float64 order book s)"
    by (simp only: same)
  show "fst (SimulateFill Float64 order book s)
      = fst (SimulateFill Float64' order book (s\<lparr>fs_rejectRatePct := 0, fs_rng := g\<rparr>))"
    using r by (rule SimulateFill_no_draw)
next
  assume r: "0 < fs_rejectRatePct s"
  let ?s1 = "s\<lparr>fs_rng := snd (Float64 (fs_rng s))\<rparr>"
  show next_state: "snd (SimulateFill Float64 order book s) = ?s1"
    using r by (rule SimulateFill_draw)
  show "fst (SimulateFill Float64 order book s)
      = (if float64_round (fst (Float64 (fs_rng s)) * 100) < fs_rejectRatePct s
         then \<lparr>sf_FillPrice = 0, sf_FillSize = 0, sf_Fee = 0, sf_LatencyMs = fs_latencyMs s,
               sf_Status = OrderStatusRejected\<rparr>
         else fst (SimulateFill Float64 order book (s\<lparr>fs_rejectRatePct := 0\<rparr>)))"
    using r by (rule SimulateFill_draw)
  have r1: "0 < fs_rejectRatePct ?s1"
    using r by simp
  have z: "fst (SimulateFill Float64 order book (?s1\<lparr>fs_rejectRatePct := 0\<rparr>))
      = fst (SimulateFill Float64 order book (s\<lparr>fs_rejectRatePct := 0\<rparr>))"
    using SimulateFill_no_draw(2) [of "?s1\<lparr>fs_rejectRatePct := 0\<rparr>" Float64 order book Float64 "fs_rng s"]
    by simp
  show "fst (SimulateFill Float64 order book (snd (SimulateFill Float64 order book s)))
      = (if float64_round (fst (Float64 (snd (Float64 (fs_rng s)))) * 100) < fs_rejectRatePct s
         then \<lparr>sf_FillPrice = 0, sf_FillSize = 0, sf_Fee = 0, sf_LatencyMs = fs_latencyMs s,
               sf_Status = OrderStatusRejected\<rparr>
         else fst (SimulateFill Float64 order book (s\<lparr>fs_rejectRatePct := 0\<rparr>)))"
    unfolding next_state SimulateFill_draw(2) [OF r1] z by simp
next
  assume "req_OrderType order = req_OrderType o2 \<and> req_Side order = req_Side o2
        \<and> req_Size order = req_Size o2 \<and> req_Price order = req_Price o2
        \<and> map_option (\<lambda>b. (ob_Bids b, ob_Asks b)) book = map_option (\<lambda>b. (ob_Bids b, ob_Asks b)) b2"
  then show "SimulateFill Float64 order book s = SimulateFill Float64 o2 b2 s"
    by (intro SimulateFill_sides) simp_all
qed

theorem SimulateFill_determined_by_generator_state_witness:
  "0 < fs_rejectRatePct (NewFillSimulator lcg_source 1 0 50 2 5)
   \<and> lcg_draw (fs_rng (NewFillSimulator lcg_source 1 0 50 2 5)) = (1 / 4, 1103527590)
   \<and> lcg_draw 1103527590 = (1 / 2, 377401575)
   \<and> snd (SimulateFill lcg_draw partial_fill_order (Some partial_fill_book)
          (NewFillSimulator lcg_source 1 0 50 2 5))
     = (NewFillSimulator lcg_source 1 0 50 2 5)\<lparr>fs_rng := 1103527590\<rparr>
   \<and> fst (SimulateFill lcg_draw partial_fill_order (Some partial_fill_book)
          (NewFillSimulator lcg_source 1 0 50 2 5))
     = \<lparr>sf_FillPrice = 0, sf_FillSize = 0, sf_Fee = 0, sf_LatencyMs = 0,
        sf_Status = OrderStatusRejected\<rparr>
   \<and> fst (SimulateFill lcg_draw partial_fill_order (Some partial_fill_book)
          (snd (SimulateFill lcg_draw partial_fill_order (Some partial_fill_book)
             (NewFillSimulator lcg_source 1 0 50 2 5))))
     = \<lparr>sf_FillPrice = 50000, sf_FillSize = 3 / 10, sf_Fee = 15 / 2, sf_LatencyMs = 0,
        sf_Status = OrderStatusPartialFill\<rparr>
   \<and> fs_rejectRatePct (NewFillSimulator lcg_source 1 0 0 2 5) \<le> 0
   \<and> snd (SimulateFill lcg_draw partial_fill_order (Some partial_fill_book)
          (NewFillSimulator lcg_source 1 0 0 2 5))
     = NewFillSimulator lcg_source 1 0 0 2 5
   \<and> req_Size partial_fill_order = req_Size (partial_fill_order\<lparr>req_InternalID := 2\<rparr>)
   \<and> SimulateFill lcg_draw partial_fill_order (Some partial_fill_book)
         (NewFillSimulator lcg_source 1 0 50 2 5)
     = SimulateFill lcg_draw (partial_fill_order\<lparr>req_InternalID := 2\<rparr>)
         (Some (partial_fill_book\<lparr>ob_Sequence := 8\<rparr>))
         (NewFillSimulator lcg_source 1 0 50 2 5)"
proof -
  let ?s = "NewFillSimulator lcg_source 1 0 50 2 5"
  let ?z = "NewFillSimulator lcg_source 1 0 0 2 5"
  let ?o = partial_fill_order
  let ?b = "Some partial_fill_book"
  note t = SimulateFill_determined_by_generator_state
  have pos: "0 < fs_rejectRatePct ?s"
    by (simp add: NewFillSimulator_def)
  have d1: "lcg_draw (fs_rng ?s) = (1 / 4, 1103527590)"
    by (simp add: NewFillSimulator_def lcg_first_draws)
  have d2: "lcg_draw 1103527590 = (1 / 2, 377401575)"
    by (simp add: lcg_first_draws)
  have rate: "fs_rejectRatePct ?s = 50" and lat: "fs_latencyMs ?s = 0"
    by (simp_all add: NewFillSimulator_def)
  have zero: "fst (SimulateFill lcg_draw ?o ?b (?s\<lparr>fs_rejectRatePct := 0\<rparr>))
      = \<lparr>sf_FillPrice = 50000, sf_FillSize = 3 / 10, sf_Fee = 15 / 2, sf_LatencyMs = 0,
         sf_Status = OrderStatusPartialFill\<rparr>"
    using partial_fill_at_rate_zero [of lcg_draw "lcg_source 1"] by (simp add: NewFillSimulator_def)
  from t [of lcg_source 1 0 50 2 5 ?s lcg_draw ?o ?b] pos
  have n1: "snd (SimulateFill lcg_draw ?o ?b ?s) = ?s\<lparr>fs_rng := snd (lcg_draw (fs_rng ?s))\<rparr>"
    and f1: "fst (SimulateFill lcg_draw ?o ?b ?s)
          = (if float64_round (fst (lcg_draw (fs_rng ?s)) * 100) < fs_rejectRatePct ?s
             then \<lparr>sf_FillPrice = 0, sf_FillSize = 0, sf_Fee = 0, sf_LatencyMs = fs_latencyMs ?s,
                   sf_Status = OrderStatusRejected\<rparr>
             else fst (SimulateFill lcg_draw ?o ?b (?s\<lparr>fs_rejectRatePct := 0\<rparr>)))"
    and f2: "fst (SimulateFill lcg_draw ?o ?b (snd (SimulateFill lcg_draw ?o ?b ?s)))
          = (if float64_round (fst (lcg_draw (snd (lcg_draw (fs_rng ?s)))) * 100) < fs_rejectRatePct ?s
             then \<lparr>sf_FillPrice = 0, sf_FillSize = 0, sf_Fee = 0, sf_LatencyMs = fs_latencyMs ?s,
                   sf_Status = OrderStatusRejected\<rparr>
             else fst (SimulateFill lcg_draw ?o ?b (?s\<lparr>fs_rejectRatePct := 0\<rparr>)))"
    by blast+
  have a: "snd (SimulateFill lcg_draw ?o ?b ?s) = ?s\<lparr>fs_rng := 1103527590\<rparr>"
    by (simp only: n1 d1 snd_conv)
  have b: "fst (SimulateFill lcg_draw ?o ?b ?s)
      = \<lparr>sf_FillPrice = 0, sf_FillSize = 0, sf_Fee = 0, sf_LatencyMs = 0,
         sf_Status = OrderStatusRejected\<rparr>"
    by (simp only: f1 d1 fst_conv rate lat) (simp add: float64_round_25)
  have c: "fst (SimulateFill lcg_draw ?o ?b (snd (SimulateFill lcg_draw ?o ?b ?s)))
      = \<lparr>sf_FillPrice = 50000, sf_FillSize = 3 / 10, sf_Fee = 15 / 2, sf_LatencyMs = 0,
         sf_Status = OrderStatusPartialFill\<rparr>"
    by (simp only: f2 d1 d2 fst_conv snd_conv rate lat zero) (simp add: float64_round_50)
  have npos: "fs_rejectRatePct ?z \<le> 0"
    by (simp add: NewFillSimulator_def)
  from t [of lcg_source 1 0 0 2 5 ?z lcg_draw ?o ?b] npos
  have d: "snd (SimulateFill lcg_draw ?o ?b ?z) = ?z"
    by blast
  have eqs: "req_OrderType ?o = req_OrderType (?o\<lparr>req_InternalID := 2\<rparr>)
      \<and> req_Side ?o = req_Side (?o\<lparr>req_InternalID := 2\<rparr>)
      \<and> req_Size ?o = req_Size (?o\<lparr>req_InternalID := 2\<rparr>)
      \<and> req_Price ?o = req_Price (?o\<lparr>req_InternalID := 2\<rparr>)
      \<and> map_option (\<lambda>b. (ob_Bids b, ob_Asks b)) ?b
          = map_option (\<lambda>b. (ob_Bids b, ob_Asks b)) (Some (partial_fill_book\<lparr>ob_Sequence := 8\<rparr>))"
    by simp
  from t [of lcg_source 1 0 50 2 5 ?s lcg_draw ?o ?b _ _ "?o\<lparr>req_InternalID := 2\<rparr>"
      "Some (partial_fill_book\<lparr>ob_Sequence := 8\<rparr>)"] eqs
  have e: "SimulateFill lcg_draw ?o ?b ?s
      = SimulateFill lcg_draw (?o\<lparr>req_InternalID := 2\<rparr>)
          (Some (partial_fill_book\<lparr>ob_Sequence := 8\<rparr>)) ?s"
    by blast
  have sz: "req_Size partial_fill_order = req_Size (partial_fill_order\<lparr>req_InternalID := 2\<rparr>)"
    by simp
  show ?thesis
    using pos d1 d2 a b c npos d sz e by (intro conjI)
qed

section \<open>Sequence numbers and blocking\<close>

subsection \<open>The merge of the levels\<close>

lemma find_level_shift: "find_level p ls (Suc i) = map_option Suc (find_level p ls i)"
  by (induction ls arbitrary: i) simp_all

lemma apply_level_delta_Nil:
  "apply_level_delta [] d = (if lvl_Size d \<noteq> 0 then [d] else [])"
  by (simp add: apply_level_delta_def)

lemma apply_level_delta_Cons:
  "apply_level_delta (l # ls) d =
     (if lvl_Price l = lvl_Price d
      then (if lvl_Size d = 0 then ls else l\<lparr>lvl_Size := lvl_Size d\<rparr> # ls)
      else l # apply_level_delta ls d)"
  by (simp add: apply_level_delta_def find_level_shift split: option.splits)

lemma level_map_Cons:
  "level_map (l # ls) = (level_map ls)(lvl_Price l \<mapsto> lvl_Size l)"
  by (simp add: level_map_def)

lemma level_map_None: "p \<notin> lvl_Price ` set ls \<Longrightarrow> level_map ls p = None"
  by (simp add: level_map_def map_of_eq_None_iff image_image)

lemma apply_level_delta_prices:
  "lvl_Price ` set (apply_level_delta ls d) \<subseteq> insert (lvl_Price d) (lvl_Price ` set ls)"
  by (induction ls) (auto simp: apply_level_delta_Nil apply_level_delta_Cons)

lemma apply_level_delta_distinct:
  "distinct (map lvl_Price ls) \<Longrightarrow> distinct (map lvl_Price (apply_level_delta ls d))"
proof (induction ls)
  case Nil
  show ?case by (simp add: apply_level_delta_Nil)
next
  case (Cons l ls)
  show ?case
  proof (cases "lvl_Price l = lvl_Price d")
    case True
    with Cons.prems show ?thesis by (simp add: apply_level_delta_Cons)
  next
    case False
    have "lvl_Price l \<notin> lvl_Price ` set (apply_level_delta ls d)"
      using apply_level_delta_prices [of ls d] Cons.prems False by auto
    with Cons False show ?thesis by (simp add: apply_level_delta_Cons)
  qed
qed

lemma apply_level_delta_merge:
  "distinct (map lvl_Price ls) \<Longrightarrow>
     level_map (apply_level_delta ls d) = merge_delta_spec (level_map ls) d"
proof (induction ls)
  case Nil
  show ?case by (auto simp: apply_level_delta_Nil level_map_def merge_delta_spec_def)
next
  case (Cons l ls)
  show ?case
  proof (cases "lvl_Price l = lvl_Price d")
    case True
    have "level_map ls (lvl_Price d) = None"
      using Cons.prems True by (intro level_map_None) auto
    with True show ?thesis
      by (auto simp: apply_level_delta_Cons level_map_Cons merge_delta_spec_def fun_eq_iff)
  next
    case False
    with Cons show ?thesis
      by (auto simp: apply_level_delta_Cons level_map_Cons merge_delta_spec_def fun_eq_iff)
  qed
qed

lemma foldl_apply_level_delta_merge:
  "distinct (map lvl_Price ls) \<Longrightarrow>
     level_map (foldl apply_level_delta ls ds) = foldl merge_delta_spec (level_map ls) ds
   \<and> distinct (map lvl_Price (foldl apply_level_delta ls ds))"
  by (induction ds arbitrary: ls) (simp_all add: apply_level_delta_merge apply_level_delta_distinct)

lemma sink_set: "set (sink descending x acc) = insert x (set acc)"
  by (induction acc) auto

lemma sink_distinct:
  "distinct (map f (sink descending x acc)) = (f x \<notin> f ` set acc \<and> distinct (map f acc))"
  by (induction acc) (auto simp: sink_set)

lemma foldl_sink_set:
  "set (foldl (\<lambda>acc x. sink descending x acc) acc xs) = set acc \<union> set xs"
  by (induction xs arbitrary: acc) (simp_all add: sink_set)

lemma foldl_sink_distinct:
  "distinct (map f (foldl (\<lambda>acc x. sink descending x acc) acc xs)) = distinct (map f (acc @ xs))"
  by (induction xs arbitrary: acc) (auto simp: sink_set sink_distinct)

lemma sortLevels_set: "set (sortLevels levels descending) = set levels"
  by (simp add: sortLevels_def foldl_sink_set)

lemma sortLevels_distinct:
  "distinct (map f (sortLevels levels descending)) = distinct (map f levels)"
  by (simp add: sortLevels_def foldl_sink_distinct rev_map [symmetric])

lemma level_before_negtrans:
  "level_before descending x z \<Longrightarrow> level_before descending x y \<or> level_before descending y z"
  by (auto simp: level_before_def)

lemma level_before_asym:
  "level_before descending x y \<Longrightarrow> \<not> level_before descending y x"
  by (auto simp: level_before_def)

lemma sink_sorted:
  "sorted_wrt (\<lambda>a b. \<not> level_before descending a b) acc \<Longrightarrow>
     sorted_wrt (\<lambda>a b. \<not> level_before descending a b) (sink descending x acc)"
proof (induction acc)
  case Nil
  show ?case by simp
next
  case (Cons y ys)
  show ?case
  proof (cases "level_before descending x y")
    case True
    then have "\<not> level_before descending y x"
      by (rule level_before_asym)
    with Cons True show ?thesis
      by (auto simp: sink_set)
  next
    case False
    have "\<not> level_before descending x z" if "z \<in> set ys" for z
      using level_before_negtrans [of descending x z y] False Cons.prems that by auto
    with Cons.prems False show ?thesis
      by simp
  qed
qed

lemma foldl_sink_sorted:
  "sorted_wrt (\<lambda>a b. \<not> level_before descending a b) acc \<Longrightarrow>
     sorted_wrt (\<lambda>a b. \<not> level_before descending a b)
       (foldl (\<lambda>acc x. sink descending x acc) acc xs)"
  by (induction xs arbitrary: acc) (simp_all add: sink_sorted)

lemma sortLevels_sorted:
  "sorted_wrt (\<lambda>a b. \<not> level_before descending b a) (sortLevels levels descending)"
  using foldl_sink_sorted [of descending "[]" levels]
  by (simp add: sortLevels_def sorted_wrt_rev)

lemma sorted_wrt_distinct_strict:
  "sorted_wrt R xs \<Longrightarrow> distinct (map f xs) \<Longrightarrow> sorted_wrt (\<lambda>a b. R a b \<and> f a \<noteq> f b) xs"
  by (induction xs) auto

lemma level_map_sortLevels:
  assumes "distinct (map lvl_Price levels)"
  shows "level_map (sortLevels levels descending) = level_map levels"
proof -
  let ?kv = "\<lambda>l. (lvl_Price l, lvl_Size l)"
  have "distinct (map fst (map ?kv (sortLevels levels descending)))"
    using assms by (simp add: comp_def sortLevels_distinct)
  moreover have "distinct (map fst (map ?kv levels))"
    using assms by (simp add: comp_def)
  moreover have "set (map ?kv (sortLevels levels descending)) = set (map ?kv levels)"
    by (simp add: sortLevels_set)
  ultimately show ?thesis
    unfolding level_map_def by (simp only: map_of_inject_set)
qed

lemma applyLevelDeltas_sorted:
  "sorted_wrt (\<lambda>a b. lvl_Price a \<ge> lvl_Price b) (applyLevelDeltas levels deltas True)"
  "sorted_wrt (\<lambda>a b. lvl_Price a \<le> lvl_Price b) (applyLevelDeltas levels deltas False)"
  using sortLevels_sorted [of True "foldl apply_level_delta levels deltas"]
    sortLevels_sorted [of False "foldl apply_level_delta levels deltas"]
  by (simp_all add: applyLevelDeltas_def level_before_def not_less)

lemma applyLevelDeltas_merge:
  assumes "distinct (map lvl_Price levels)"
  shows "level_map (applyLevelDeltas levels deltas descending)
           = foldl merge_delta_spec (level_map levels) deltas"
    and "distinct (map lvl_Price (applyLevelDeltas levels deltas descending))"
  using foldl_apply_level_delta_merge [OF assms, of deltas]
  by (simp_all add: applyLevelDeltas_def level_map_sortLevels sortLevels_distinct)

lemma applyLevelDeltas_strict:
  assumes "distinct (map lvl_Price levels)"
  shows "sorted_wrt (\<lambda>a b. lvl_Price a > lvl_Price b) (applyLevelDeltas levels deltas True)"
    and "sorted_wrt (\<lambda>a b. lvl_Price a < lvl_Price b) (applyLevelDeltas levels deltas False)"
proof -
  have "sorted_wrt (\<lambda>a b. lvl_Price a \<ge> lvl_Price b \<and> lvl_Price a \<noteq> lvl_Price b)
      (applyLevelDeltas levels deltas True)"
    by (intro sorted_wrt_distinct_strict applyLevelDeltas_sorted applyLevelDeltas_merge assms)
  then show "sorted_wrt (\<lambda>a b. lvl_Price a > lvl_Price b) (applyLevelDeltas levels deltas True)"
    by (rule sorted_wrt_mono_rel [rotated]) auto
  have "sorted_wrt (\<lambda>a b. lvl_Price a \<le> lvl_Price b \<and> lvl_Price a \<noteq> lvl_Price b)
      (applyLevelDeltas levels deltas False)"
    by (intro sorted_wrt_distinct_strict applyLevelDeltas_sorted applyLevelDeltas_merge assms)
  then show "sorted_wrt (\<lambda>a b. lvl_Price a < lvl_Price b) (applyLevelDeltas levels deltas False)"
    by (rule sorted_wrt_mono_rel [rotated]) auto
qed

lemma ApplyDelta_published:
  "snd (ApplyDelta now delta s) =
     (book_before s delta)
       \<lparr>ob_Bids := applyLevelDeltas (ob_Bids (book_before s delta)) (od_Bids delta) True,
        ob_Asks := applyLevelDeltas (ob_Asks (book_before s delta)) (od_Asks delta) False,
        ob_Sequence := od_Sequence delta, ob_VenueTimestamp := od_VenueTimestamp delta,
        ob_LocalTimestamp := now\<rparr>"
  by (simp add: ApplyDelta_def book_before_def Let_def)

text \<open>
  C8, as stated, fails: a book stored at sequence 5 takes a delta of sequence 9, and right
  after it the feed is not blocked; the book simply carries sequence 9.
\<close>

theorem gap_delta_leaves_feed_unblocked:
  "map_option ob_Sequence
     (md_books (fst (UpdateOrderBook 0 (test_book\<lparr>ob_Sequence := 5\<rparr>) (NewService 500000000 2000000000)))
        (bookKey ''nobitex'' ''BTC/USDT'')) = Some 5
   \<and> \<not> IsDataBlocked 1000
        (fst (ApplyDelta 1000
           \<lparr>od_Venue = ''nobitex'', od_Symbol = ''BTC/USDT'',
            od_Bids = [\<lparr>lvl_Price = 49999, lvl_Size = 2\<rparr>], od_Asks = [],
            od_Sequence = 9, od_VenueTimestamp = 990, od_LocalTimestamp = 0\<rparr>
           (fst (UpdateOrderBook 0 (test_book\<lparr>ob_Sequence := 5\<rparr>)
              (NewService 500000000 2000000000)))))
        ''nobitex'' ''BTC/USDT''
   \<and> map_option ob_Sequence
        (md_books (fst (ApplyDelta 1000
           \<lparr>od_Venue = ''nobitex'', od_Symbol = ''BTC/USDT'',
            od_Bids = [\<lparr>lvl_Price = 49999, lvl_Size = 2\<rparr>], od_Asks = [],
            od_Sequence = 9, od_VenueTimestamp = 990, od_LocalTimestamp = 0\<rparr>
           (fst (UpdateOrderBook 0 (test_book\<lparr>ob_Sequence := 5\<rparr>)
              (NewService 500000000 2000000000)))))
          (bookKey ''nobitex'' ''BTC/USDT'')) = Some 9"
  by (simp add: UpdateOrderBook_def ApplyDelta_def IsDataBlocked_def NewService_def
      test_book_def bookKey_def Let_def)

text \<open>
  C8, amended. \<open>ApplyDelta\<close> applies a delta whatever its sequence number: the book
  takes the delta's sequence number and venue timestamp, the stored book is the one
  snapshot published, and the time of the last update becomes the time of the delta. The
  bids come out in descending and the asks in ascending order of price. Where a side of the
  book before the delta holds no price twice, the side after it, read as a map from price
  to size, is that of the book before with the delta's levels applied in turn, a level of
  size zero removing its price and any other level setting the size at its price, and its
  order is strict. The feed of that venue and symbol is then blocked exactly when more
  than the block duration has passed since the delta; in general a feed is blocked when it
  has no last update or its last update is older than the block duration.
\<close>

theorem ApplyDelta_takes_any_sequence:
  "map_option ob_Sequence
     (md_books (fst (ApplyDelta now delta s)) (bookKey (od_Venue delta) (od_Symbol delta)))
     = Some (od_Sequence delta)
   \<and> md_books (fst (ApplyDelta now delta s)) (bookKey (od_Venue delta) (od_Symbol delta))
     = Some (snd (ApplyDelta now delta s))
   \<and> md_lastUpdate (fst (ApplyDelta now delta s)) (bookKey (od_Venue delta) (od_Symbol delta))
     = Some now
   \<and> IsDataBlocked t (fst (ApplyDelta now delta s)) (od_Venue delta) (od_Symbol delta)
     = (t - now > md_blockDuration s)
   \<and> IsDataBlocked t s venue symbol
     = (case md_lastUpdate s (bookKey venue symbol) of
          None \<Rightarrow> True | Some u \<Rightarrow> t - u > md_blockDuration s)
   \<and> sorted_wrt (\<lambda>a b. lvl_Price a \<ge> lvl_Price b) (ob_Bids (snd (ApplyDelta now delta s)))
   \<and> sorted_wrt (\<lambda>a b. lvl_Price a \<le> lvl_Price b) (ob_Asks (snd (ApplyDelta now delta s)))
   \<and> (distinct (map lvl_Price (ob_Bids (book_before s delta))) \<longrightarrow>
        level_map (ob_Bids (snd (ApplyDelta now delta s)))
          = foldl merge_delta_spec (level_map (ob_Bids (book_before s delta))) (od_Bids delta)
      \<and> sorted_wrt (\<lambda>a b. lvl_Price a > lvl_Price b) (ob_Bids (snd (ApplyDelta now delta s))))
   \<and> (distinct (map lvl_Price (ob_Asks (book_before s delta))) \<longrightarrow>
        level_map (ob_Asks (snd (ApplyDelta now delta s)))
          = foldl merge_delta_spec (level_map (ob_Asks (book_before s delta))) (od_Asks delta)
      \<and> sorted_wrt (\<lambda>a b. lvl_Price a < lvl_Price b) (ob_Asks (snd (ApplyDelta now delta s))))
   \<and> ob_Venue (snd (ApplyDelta now delta s)) = ob_Venue (book_before s delta)
   \<and> ob_Symbol (snd (ApplyDelta now delta s)) = ob_Symbol (book_before s delta)
   \<and> ob_VenueTimestamp (snd (ApplyDelta now delta s)) = od_VenueTimestamp delta
   \<and> ob_LocalTimestamp (snd (ApplyDelta now delta s)) = now"
proof -
  note p = ApplyDelta_published [of now delta s]
  have bids: "ob_Bids (snd (ApplyDelta now delta s))
      = applyLevelDeltas (ob_Bids (book_before s delta)) (od_Bids delta) True"
    and asks: "ob_Asks (snd (ApplyDelta now delta s))
      = applyLevelDeltas (ob_Asks (book_before s delta)) (od_Asks delta) False"
    by (simp_all add: p)
  have a: "map_option ob_Sequence
     (md_books (fst (ApplyDelta now delta s)) (bookKey (od_Venue delta) (od_Symbol delta)))
     = Some (od_Sequence delta)"
    by (simp add: ApplyDelta_def Let_def)
  have b: "md_books (fst (ApplyDelta now delta s)) (bookKey (od_Venue delta) (od_Symbol delta))
     = Some (snd (ApplyDelta now delta s))"
    by (simp add: ApplyDelta_def Let_def)
  have c: "md_lastUpdate (fst (ApplyDelta now delta s)) (bookKey (od_Venue delta) (od_Symbol delta))
     = Some now"
    by (simp add: ApplyDelta_def Let_def)
  have d: "IsDataBlocked t (fst (ApplyDelta now delta s)) (od_Venue delta) (od_Symbol delta)
     = (t - now > md_blockDuration s)"
    by (simp add: ApplyDelta_def IsDataBlocked_def Let_def)
  have e: "IsDataBlocked t s venue symbol
     = (case md_lastUpdate s (bookKey venue symbol) of
          None \<Rightarrow> True | Some u \<Rightarrow> t - u > md_blockDuration s)"
    by (simp add: IsDataBlocked_def)
  have f: "sorted_wrt (\<lambda>a b. lvl_Price a \<ge> lvl_Price b) (ob_Bids (snd (ApplyDelta now delta s)))"
    unfolding bids by (rule applyLevelDeltas_sorted)
  have g: "sorted_wrt (\<lambda>a b. lvl_Price a \<le> lvl_Price b) (ob_Asks (snd (ApplyDelta now delta s)))"
    unfolding asks by (rule applyLevelDeltas_sorted)
  have h: "distinct (map lvl_Price (ob_Bids (book_before s delta))) \<longrightarrow>
        level_map (ob_Bids (snd (ApplyDelta now delta s)))
          = foldl merge_delta_spec (level_map (ob_Bids (book_before s delta))) (od_Bids delta)
      \<and> sorted_wrt (\<lambda>a b. lvl_Price a > lvl_Price b) (ob_Bids (snd (ApplyDelta now delta s)))"
    unfolding bids by (intro impI conjI applyLevelDeltas_merge applyLevelDeltas_strict)
  have i: "distinct (map lvl_Price (ob_Asks (book_before s delta))) \<longrightarrow>
        level_map (ob_Asks (snd (ApplyDelta now delta s)))
          = foldl merge_delta_spec (level_map (ob_Asks (book_before s delta))) (od_Asks delta)
      \<and> sorted_wrt (\<lambda>a b. lvl_Price a < lvl_Price b) (ob_Asks (snd (ApplyDelta now delta s)))"
    unfolding asks by (intro impI conjI applyLevelDeltas_merge applyLevelDeltas_strict)
  have j: "ob_Venue (snd (ApplyDelta now delta s)) = ob_Venue (book_before s delta)"
    "ob_Symbol (snd (ApplyDelta now delta s)) = ob_Symbol (book_before s delta)"
    "ob_VenueTimestamp (snd (ApplyDelta now delta s)) = od_VenueTimestamp delta"
    "ob_LocalTimestamp (snd (ApplyDelta now delta s)) = now"
    by (simp_all add: p)
  show ?thesis
    using a b c d e f g h i j by (intro conjI)
qed

theorem ApplyDelta_takes_any_sequence_witness:
  "ob_Bids (book_before (fst (UpdateOrderBook 0 (test_book\<lparr>ob_Sequence := 5\<rparr>)
       (NewService 500000000 2000000000))) gap_delta) = [\<lparr>lvl_Price = 50000, lvl_Size = 1\<rparr>]
   \<and> ob_Asks (book_before (fst (UpdateOrderBook 0 (test_book\<lparr>ob_Sequence := 5\<rparr>)
       (NewService 500000000 2000000000))) gap_delta) = [\<lparr>lvl_Price = 50001, lvl_Size = 1\<rparr>]
   \<and> level_map (ob_Bids (snd (ApplyDelta 1000 gap_delta
        (fst (UpdateOrderBook 0 (test_book\<lparr>ob_Sequence := 5\<rparr>) (NewService 500000000 2000000000))))))
     = [49999 \<mapsto> 2]
   \<and> level_map (ob_Asks (snd (ApplyDelta 1000 gap_delta
        (fst (UpdateOrderBook 0 (test_book\<lparr>ob_Sequence := 5\<rparr>) (NewService 500000000 2000000000))))))
     = [50001 \<mapsto> 3, 50000 + 1 / 2 \<mapsto> 1]
   \<and> ob_Bids (snd (ApplyDelta 1000 gap_delta
        (fst (UpdateOrderBook 0 (test_book\<lparr>ob_Sequence := 5\<rparr>) (NewService 500000000 2000000000)))))
     = [\<lparr>lvl_Price = 49999, lvl_Size = 2\<rparr>]
   \<and> ob_Asks (snd (ApplyDelta 1000 gap_delta
        (fst (UpdateOrderBook 0 (test_book\<lparr>ob_Sequence := 5\<rparr>) (NewService 500000000 2000000000)))))
     = [\<lparr>lvl_Price = 50000 + 1 / 2, lvl_Size = 1\<rparr>, \<lparr>lvl_Price = 50001, lvl_Size = 3\<rparr>]
   \<and> \<not> IsDataBlocked 1000 (fst (ApplyDelta 1000 gap_delta
        (fst (UpdateOrderBook 0 (test_book\<lparr>ob_Sequence := 5\<rparr>) (NewService 500000000 2000000000)))))
        (od_Venue gap_delta) (od_Symbol gap_delta)"
proof -
  let ?s = "fst (UpdateOrderBook 0 (test_book\<lparr>ob_Sequence := 5\<rparr>) (NewService 500000000 2000000000))"
  note t = ApplyDelta_takes_any_sequence [of 1000 gap_delta ?s 1000]
  have b0: "ob_Bids (book_before ?s gap_delta) = [\<lparr>lvl_Price = 50000, lvl_Size = 1\<rparr>]"
    and a0: "ob_Asks (book_before ?s gap_delta) = [\<lparr>lvl_Price = 50001, lvl_Size = 1\<rparr>]"
    by (simp_all add: book_before_def UpdateOrderBook_def NewService_def test_book_def
        gap_delta_def bookKey_def Let_def)
  have db: "distinct (map lvl_Price (ob_Bids (book_before ?s gap_delta)))"
    and da: "distinct (map lvl_Price (ob_Asks (book_before ?s gap_delta)))"
    by (simp_all add: b0 a0)
  have mb: "level_map (ob_Bids (snd (ApplyDelta 1000 gap_delta ?s)))
      = foldl merge_delta_spec (level_map (ob_Bids (book_before ?s gap_delta))) (od_Bids gap_delta)"
    using t db by blast
  have ma: "level_map (ob_Asks (snd (ApplyDelta 1000 gap_delta ?s)))
      = foldl merge_delta_spec (level_map (ob_Asks (book_before ?s gap_delta))) (od_Asks gap_delta)"
    using t da by blast
  have blk: "IsDataBlocked 1000 (fst (ApplyDelta 1000 gap_delta ?s))
      (od_Venue gap_delta) (od_Symbol gap_delta) = (1000 - 1000 > md_blockDuration ?s)"
    using t by blast
  have c1: "level_map (ob_Bids (snd (ApplyDelta 1000 gap_delta ?s))) = [49999 \<mapsto> 2]"
    unfolding mb b0 by (simp add: gap_delta_def level_map_def merge_delta_spec_def)
  have c2: "level_map (ob_Asks (snd (ApplyDelta 1000 gap_delta ?s)))
      = [50001 \<mapsto> 3, 50000 + 1 / 2 \<mapsto> 1]"
    unfolding ma a0 by (simp add: gap_delta_def level_map_def merge_delta_spec_def)
  have c3: "ob_Bids (snd (ApplyDelta 1000 gap_delta ?s)) = [\<lparr>lvl_Price = 49999, lvl_Size = 2\<rparr>]"
    unfolding ApplyDelta_published b0
    by (simp add: gap_delta_def applyLevelDeltas_def apply_level_delta_def sortLevels_def
        level_before_def)
  have c4: "ob_Asks (snd (ApplyDelta 1000 gap_delta ?s))
      = [\<lparr>lvl_Price = 50000 + 1 / 2, lvl_Size = 1\<rparr>, \<lparr>lvl_Price = 50001, lvl_Size = 3\<rparr>]"
    unfolding ApplyDelta_published a0
    by (simp add: gap_delta_def applyLevelDeltas_def apply_level_delta_def sortLevels_def
        level_before_def)
  have c5: "\<not> IsDataBlocked 1000 (fst (ApplyDelta 1000 gap_delta ?s))
      (od_Venue gap_delta) (od_Symbol gap_delta)"
    unfolding blk by (simp add: UpdateOrderBook_def NewService_def Let_def)
  show ?thesis
    using b0 a0 c1 c2 c3 c4 c5 by (intro conjI)
qed

section \<open>Division by zero in the edge computation\<close>

lemma int64_quo_total: "b \<noteq> 0 \<Longrightarrow> \<exists>q. int64_quo a b = Inr q"
  by (simp add: int64_quo_def)

lemma PricePrecision_nonzero: "PricePrecision \<noteq> 0"
  by (simp add: PricePrecision_def)

lemma FixedPrice_Div_total: "\<exists>q. FixedPrice_Div f other = Inr q"
  by (simp add: FixedPrice_Div_def int64_quo_total)

lemma FixedPrice_Mul_total: "\<exists>q. FixedPrice_Mul f other = Inr q"
  unfolding FixedPrice_Mul_def using PricePrecision_nonzero by (rule int64_quo_total)

lemma FixedFromBps_total: "\<exists>q. FixedFromBps bps = Inr q"
  by (simp add: FixedFromBps_def int64_quo_total)

lemma FixedPrice_Div_not_panic: "FixedPrice_Div f other \<noteq> Inl p"
  using FixedPrice_Div_total [of f other] by auto

lemma FixedPrice_Mul_not_panic: "FixedPrice_Mul f other \<noteq> Inl p"
  using FixedPrice_Mul_total [of f other] by auto

lemma edge_loop_total:
  "allBooksAvailable books legs \<Longrightarrow> \<exists>r. edge_loop books legs rate = Inr r"
proof (induction legs arbitrary: rate)
  case Nil
  then show ?case by simp
next
  case (Cons leg legs)
  then obtain book where b: "books (tl_Symbol leg) = Some book" and av: "allBooksAvailable books legs"
    by (auto split: option.splits)
  show ?case
    using Cons.IH [OF av]
    by (simp add: b FixedPrice_Div_not_panic FixedPrice_Mul_not_panic Let_def
        split: option.splits sum.splits)
qed

lemma edge_loop_zero_price:
  assumes "allBooksAvailable books legs"
    and "leg \<in> set legs" and "tl_Side leg = SideBuy"
    and "books (tl_Symbol leg) = Some book" and "BestAsk book = Some ask"
    and "ToFixed (lvl_Price ask) = 0"
  shows "edge_loop books legs rate = Inr None"
  using assms(1,2)
proof (induction legs arbitrary: rate)
  case Nil
  then show ?case by simp
next
  case (Cons l ls)
  then obtain b where b: "books (tl_Symbol l) = Some b" and av: "allBooksAvailable books ls"
    by (auto split: option.splits)
  show ?case
  proof (cases "l = leg")
    case True
    then show ?thesis
      using assms(3-6) by simp
  next
    case False
    then have "leg \<in> set ls"
      using Cons.prems(2) by simp
    then have "edge_loop books ls r = Inr None" for r
      using Cons.IH av by blast
    then show ?thesis
      by (simp add: b FixedPrice_Div_not_panic FixedPrice_Mul_not_panic Let_def
          split: option.splits sum.splits)
  qed
qed

lemma collect_legs_total:
  "allBooksAvailable books legs \<Longrightarrow>
     collect_legs books legs minSize acc = Inr None \<or>
     (\<exists>out m. collect_legs books legs minSize acc = Inr (Some (out, m))
        \<and> length out = length acc + length legs)"
proof (induction legs arbitrary: minSize acc)
  case Nil
  then show ?case by simp
next
  case (Cons leg legs)
  then obtain book where b: "books (tl_Symbol leg) = Some book" and av: "allBooksAvailable books legs"
    by (auto split: option.splits)
  show ?case
  proof (cases "if tl_Side leg = SideBuy then BestAsk book else BestBid book")
    case None
    then show ?thesis by (simp add: b)
  next
    case (Some best)
    show ?thesis
      using Cons.IH [OF av, of "if lvl_Price best * lvl_Size best < minSize
          then lvl_Price best * lvl_Size best else minSize"
        "acc @ [\<lparr>leg_Symbol = tl_Symbol leg, leg_Side = tl_Side leg,
                 leg_InstrumentType = InstrumentSpot, leg_Price = lvl_Price best,
                 leg_Size = lvl_Size best, leg_OrderType = OrderTypeLimit\<rparr>]"]
      by (simp add: b Some Let_def)
  qed
qed

lemma resize_legs_total:
  "\<exists>out. resize_legs minSize legs = Inr out \<and> length out = length legs"
proof (induction legs)
  case Nil
  then show ?case by simp
next
  case (Cons leg legs)
  then obtain out where "resize_legs minSize legs = Inr out" and "length out = length legs"
    by blast
  then show ?case
    by (simp add: Decimal_Div_def)
qed

lemma legs_of_length: "length (legs_of path) = 3"
  by (simp add: legs_of_def split: prod.splits)

lemma buildSignal_total:
  assumes "allBooksAvailable (ta_books m) (legs_of path)"
  shows "\<exists>r. buildSignal EstimateCost newID now m path edgeBps mdTimestamp = Inr r"
proof -
  from collect_legs_total [OF assms, of 999999999 "[]"]
  consider "collect_legs (ta_books m) (legs_of path) 999999999 [] = Inr None"
    | out mn where "collect_legs (ta_books m) (legs_of path) 999999999 [] = Inr (Some (out, mn))"
        and "length out = 3"
    by (auto simp: legs_of_length)
  then show ?thesis
  proof cases
    case 1
    then show ?thesis by (simp add: buildSignal_def)
  next
    case 2
    obtain legs where r: "resize_legs mn out = Inr legs" and "length legs = length out"
      using resize_legs_total by blast
    then obtain first rest where "legs = first # rest"
      using 2(2) by (cases legs) auto
    then show ?thesis
      by (simp add: buildSignal_def 2(1) r Let_def split: sum.splits)
  qed
qed

lemma computeEdge_total:
  assumes "allBooksAvailable books (legs_of path)"
  shows "\<exists>e. computeEdge books path = Inr e"
proof -
  obtain r where "edge_loop books (legs_of path) (ToFixed 1) = Inr r"
    using edge_loop_total [OF assms] by blast
  then show ?thesis
    by (simp add: computeEdge_def Let_def split: option.splits)
qed

lemma evaluate_path_total:
  "\<exists>r. evaluate_path EstimateCost newID now m updatedSymbol mdTimestamp path = Inr r"
proof (cases "allBooksAvailable (ta_books m) (legs_of path)")
  case True
  obtain e where e: "computeEdge (ta_books m) path = Inr e"
    using computeEdge_total [OF True] by blast
  obtain th where th: "FixedFromBps (ta_minEdgeBps m) = Inr th"
    using FixedFromBps_total by blast
  show ?thesis
    using buildSignal_total [OF True, of EstimateCost newID now e mdTimestamp]
    by (simp add: evaluate_path_def e th)
next
  case False
  then show ?thesis by (simp add: evaluate_path_def)
qed

lemma evaluate_paths_total:
  "\<exists>signals. evaluate_paths EstimateCost ids now m updatedSymbol mdTimestamp n paths = Inr signals"
proof (induction paths arbitrary: n)
  case Nil
  then show ?case by simp
next
  case (Cons path paths)
  obtain r where r: "evaluate_path EstimateCost (ids n) now m updatedSymbol mdTimestamp path = Inr r"
    using evaluate_path_total by blast
  obtain signals where
    "evaluate_paths EstimateCost ids now m updatedSymbol mdTimestamp (Suc n) paths = Inr signals"
    using Cons.IH by blast
  then show ?case
    by (simp add: r)
qed

text \<open>
  C10. \<open>FixedPrice_Div\<close> returns 0 for a zero divisor and never panics. In the edge
  computation over available books, a buy leg whose best ask is 0 in fixed point makes the
  edge 0. The evaluation of the paths after a book update returns its signals without a
  panic, so no division by zero is reached in it.
\<close>

theorem no_division_by_zero:
  "FixedPrice_Div f 0 = Inr 0
   \<and> (\<exists>q. FixedPrice_Div f other = Inr q)
   \<and> (allBooksAvailable books (legs_of path) \<and> leg \<in> set (legs_of path) \<and> tl_Side leg = SideBuy
        \<and> books (tl_Symbol leg) = Some book \<and> BestAsk book = Some ask
        \<and> ToFixed (lvl_Price ask) = 0 \<longrightarrow>
      computeEdge books path = Inr 0)
   \<and> (\<exists>signals. evaluate EstimateCost ids now m updatedSymbol mdTimestamp = Inr signals)
   \<and> (\<exists>r. OnOrderBookUpdate EstimateCost ids now snap m = Inr r)"
proof (intro conjI impI)
  show "FixedPrice_Div f 0 = Inr 0"
    by (simp add: FixedPrice_Div_def)
  show "\<exists>q. FixedPrice_Div f other = Inr q"
    by (rule FixedPrice_Div_total)
  show "\<exists>signals. evaluate EstimateCost ids now m updatedSymbol mdTimestamp = Inr signals"
    unfolding evaluate_def by (rule evaluate_paths_total)
  show "\<exists>r. OnOrderBookUpdate EstimateCost ids now snap m = Inr r"
  proof -
    obtain signals where "evaluate EstimateCost ids now
        (m\<lparr>ta_books := (ta_books m)(ob_Symbol snap \<mapsto> snap)\<rparr>) (ob_Symbol snap)
        (ob_LocalTimestamp snap) = Inr signals"
      unfolding evaluate_def using evaluate_paths_total by blast
    then show ?thesis
      by (simp add: OnOrderBookUpdate_def Let_def)
  qed
next
  assume a: "allBooksAvailable books (legs_of path) \<and> leg \<in> set (legs_of path)
      \<and> tl_Side leg = SideBuy \<and> books (tl_Symbol leg) = Some book \<and> BestAsk book = Some ask
      \<and> ToFixed (lvl_Price ask) = 0"
  then have "edge_loop books (legs_of path) (ToFixed 1) = Inr None"
    by (intro edge_loop_zero_price [of books "legs_of path" leg book ask]) auto
  then show "computeEdge books path = Inr 0"
    by (simp add: computeEdge_def)
qed

theorem no_division_by_zero_witness:
  "allBooksAvailable tiny_ask_books (legs_of btc_eth_path)
   \<and> ToFixed (1 / 10 ^ 10) = 0
   \<and> computeEdge tiny_ask_books btc_eth_path = Inr 0
   \<and> FixedPrice_Div 5 0 = Inr 0"
proof -
  let ?leg = "\<lparr>tl_Symbol = ''BTC/USDT'', tl_Side = SideBuy\<rparr>"
  let ?book = "one_level_book ''BTC/USDT'' 0 (1 / 10 ^ 10)"
  let ?ask = "\<lparr>lvl_Price = 1 / 10 ^ 10, lvl_Size = 1\<rparr>"
  have av: "allBooksAvailable tiny_ask_books (legs_of btc_eth_path)"
    by code_simp
  have z: "ToFixed (1 / 10 ^ 10) = 0"
    by code_simp
  have h: "allBooksAvailable tiny_ask_books (legs_of btc_eth_path) \<and> ?leg \<in> set (legs_of btc_eth_path)
      \<and> tl_Side ?leg = SideBuy \<and> tiny_ask_books (tl_Symbol ?leg) = Some ?book
      \<and> BestAsk ?book = Some ?ask \<and> ToFixed (lvl_Price ?ask) = 0"
    using av z by (simp add: legs_of_def btc_eth_path_def tiny_ask_books_def BestAsk_def
        one_level_book_def)
  show ?thesis
    using av z h no_division_by_zero [of 5 0 tiny_ask_books btc_eth_path ?leg ?book ?ask]
    by blast
qed

section \<open>Triangular edge\<close>

lemma ToFixed_one: "ToFixed 1 = 1000000000"
  by (simp add: ToFixed_def pricePrecisionDec_def Decimal_IntPart_def)

lemma edge_loop_spec:
  "allBooksAvailable books legs \<Longrightarrow>
     edge_loop books legs rate = Inr (implied_rate_spec books legs rate)"
proof (induction legs arbitrary: rate)
  case Nil
  then show ?case by simp
next
  case (Cons leg legs)
  then obtain book where b: "books (tl_Symbol leg) = Some book" and av: "allBooksAvailable books legs"
    by (auto split: option.splits)
  show ?case
    using Cons.IH [OF av]
    by (cases "tl_Side leg")
      (simp_all add: b Let_def FixedPrice_Div_def FixedPrice_Mul_def int64_quo_def
        fixed_quotient_def PricePrecision_nonzero split: option.splits)
qed

lemma computeEdge_spec:
  assumes "allBooksAvailable books (legs_of path)"
  shows "computeEdge books path =
           Inr (case implied_rate_spec books (legs_of path) (ToFixed 1) of
                  None \<Rightarrow> 0
                | Some implied \<Rightarrow> if ToFixed 1 <s implied then implied - ToFixed 1 else 0)"
  by (simp add: computeEdge_def edge_loop_spec [OF assms] Let_def FixedPrice_GT_def
      FixedPrice_Sub_def split: option.splits)

lemma collect_legs_symbols:
  "collect_legs books legs minSize acc = Inr (Some (out, mn)) \<Longrightarrow>
     map leg_Symbol out = map leg_Symbol acc @ map tl_Symbol legs
     \<and> map leg_Side out = map leg_Side acc @ map tl_Side legs"
proof (induction legs arbitrary: minSize acc)
  case Nil
  then show ?case by simp
next
  case (Cons leg legs)
  from Cons.prems show ?case
    by (auto simp: Let_def split: option.splits dest!: Cons.IH)
qed

lemma resize_legs_symbols:
  "resize_legs minSize legs = Inr out \<Longrightarrow>
     map leg_Symbol out = map leg_Symbol legs \<and> map leg_Side out = map leg_Side legs"
proof (induction legs arbitrary: out)
  case Nil
  then show ?case by simp
next
  case (Cons leg legs)
  from Cons.prems show ?case
    by (auto simp: Decimal_Div_def split: sum.splits if_splits dest!: Cons.IH)
qed

lemma buildSignal_Some:
  assumes "buildSignal EstimateCost newID now m path edgeBps mdTimestamp = Inr (Some signal)"
  shows "\<exists>costEst firstLeg rest.
           sig_Legs signal = firstLeg # rest
         \<and> leg_Symbol firstLeg = tl_Symbol (fst (tp_Legs path))
         \<and> leg_Side firstLeg = tl_Side (fst (tp_Legs path))
         \<and> EstimateCost (ta_venue m) (leg_Symbol firstLeg) (leg_Side firstLeg) (leg_Size firstLeg)
              OrderTypeLimit = Inr costEst
         \<and> sig_ExpectedEdgeBps signal = ToDecimal edgeBps * 10000 - ce_TotalBps costEst
         \<and> 0 < sig_ExpectedEdgeBps signal"
proof -
  obtain legs0 minSize where c: "collect_legs (ta_books m) (legs_of path) 999999999 [] = Inr (Some (legs0, minSize))"
    using assms by (auto simp: buildSignal_def split: sum.splits option.splits)
  obtain legs where r: "resize_legs minSize legs0 = Inr legs"
    using assms by (auto simp: buildSignal_def c split: sum.splits)
  obtain firstLeg rest where l: "legs = firstLeg # rest"
    using assms by (cases legs) (auto simp: buildSignal_def c r)
  obtain costEst where e: "EstimateCost (ta_venue m) (leg_Symbol firstLeg) (leg_Side firstLeg)
      (leg_Size firstLeg) OrderTypeLimit = Inr costEst"
    using assms by (auto simp: buildSignal_def c r l split: sum.splits)
  have sym: "map leg_Symbol legs = map tl_Symbol (legs_of path)"
    and side: "map leg_Side legs = map tl_Side (legs_of path)"
    using collect_legs_symbols [OF c] resize_legs_symbols [OF r] by simp_all
  have f: "leg_Symbol firstLeg = tl_Symbol (fst (tp_Legs path))"
    "leg_Side firstLeg = tl_Side (fst (tp_Legs path))"
    using sym side by (simp_all add: l legs_of_def split: prod.splits)
  show ?thesis
    using assms f e
    by (auto simp: buildSignal_def c r l Let_def not_le split: if_splits)
qed

lemma evaluate_paths_member:
  "evaluate_paths EstimateCost ids now m updatedSymbol mdTimestamp n paths = Inr signals \<Longrightarrow>
   signal \<in> set signals \<Longrightarrow>
   \<exists>path \<in> set paths. \<exists>k.
      evaluate_path EstimateCost (ids k) now m updatedSymbol mdTimestamp path = Inr (Some signal)"
proof (induction paths arbitrary: n signals)
  case Nil
  then show ?case by simp
next
  case (Cons path paths)
  from Cons.prems(1) obtain r rest
    where ev: "evaluate_path EstimateCost (ids n) now m updatedSymbol mdTimestamp path = Inr r"
      and evs: "evaluate_paths EstimateCost ids now m updatedSymbol mdTimestamp (Suc n) paths = Inr rest"
      and sg: "signals = (case r of None \<Rightarrow> [] | Some s \<Rightarrow> [s]) @ rest"
    by (auto split: sum.splits)
  from Cons.prems(2) sg consider "r = Some signal" | "signal \<in> set rest"
    by (auto split: option.splits)
  then show ?case
  proof cases
    case 1
    with ev show ?thesis by auto
  next
    case 2
    from Cons.IH [OF evs 2] show ?thesis by auto
  qed
qed

text \<open>
  C4, as stated, fails where it says that the edge is the implied rate minus 1: with asks
  of 50000 and 0.06 and a bid of 2900 the implied rate is 0.9666657 in fixed point, and the
  edge computed is 0, not the negative difference.
\<close>

theorem edge_differs_from_implied_minus_one:
  "allBooksAvailable (ta_books (example_module 2900)) (legs_of btc_eth_path)
   \<and> implied_rate_spec (ta_books (example_module 2900)) (legs_of btc_eth_path) (ToFixed 1)
       = Some 966665700
   \<and> computeEdge (ta_books (example_module 2900)) btc_eth_path = Inr 0
   \<and> FixedPrice_Sub 966665700 (ToFixed 1) \<noteq> 0"
proof (intro conjI)
  show "allBooksAvailable (ta_books (example_module 2900)) (legs_of btc_eth_path)"
    by code_simp
  show "implied_rate_spec (ta_books (example_module 2900)) (legs_of btc_eth_path) (ToFixed 1)
       = Some 966665700"
    by code_simp
  show "computeEdge (ta_books (example_module 2900)) btc_eth_path = Inr 0"
    by code_simp
  show "FixedPrice_Sub 966665700 (ToFixed 1) \<noteq> 0"
    by (simp add: FixedPrice_Sub_def ToFixed_one)
qed

text \<open>
  C4, amended. Over available books the implied rate starts at 1 in fixed point, is
  divided by the best ask on a buy leg and multiplied by the best bid on a sell leg; the
  edge is the implied rate minus 1 when the implied rate exceeds 1, and 0 otherwise, also
  when a leg has no best level on its side or a buy price is 0 in fixed point. Every signal
  the evaluation publishes belongs to a path that involves the updated symbol, has its
  books available and an edge above \<open>FixedFromBps\<close> of the minimum edge; the cost estimate
  was requested for the signal's first leg, and the signal's expected edge, the edge as bps
  minus the estimate's total bps, is strictly positive.
\<close>

theorem triangular_edge_and_signal:
  "(allBooksAvailable books (legs_of path) \<longrightarrow>
      computeEdge books path =
        Inr (case implied_rate_spec books (legs_of path) (ToFixed 1) of
               None \<Rightarrow> 0
             | Some implied \<Rightarrow> if ToFixed 1 <s implied then implied - ToFixed 1 else 0))
   \<and> (evaluate EstimateCost ids now m updatedSymbol mdTimestamp = Inr signals
        \<and> signal \<in> set signals \<longrightarrow>
      (\<exists>p \<in> set (ta_paths m). \<exists>edge threshold costEst firstLeg rest.
          pathInvolves (legs_of p) updatedSymbol
        \<and> allBooksAvailable (ta_books m) (legs_of p)
        \<and> computeEdge (ta_books m) p = Inr edge
        \<and> FixedFromBps (ta_minEdgeBps m) = Inr threshold
        \<and> threshold <s edge
        \<and> sig_Legs signal = firstLeg # rest
        \<and> leg_Symbol firstLeg = tl_Symbol (fst (tp_Legs p))
        \<and> leg_Side firstLeg = tl_Side (fst (tp_Legs p))
        \<and> EstimateCost (ta_venue m) (leg_Symbol firstLeg) (leg_Side firstLeg) (leg_Size firstLeg)
             OrderTypeLimit = Inr costEst
        \<and> sig_ExpectedEdgeBps signal = ToDecimal edge * 10000 - ce_TotalBps costEst
        \<and> 0 < sig_ExpectedEdgeBps signal))"
proof (intro conjI impI)
  assume "allBooksAvailable books (legs_of path)"
  then show "computeEdge books path =
        Inr (case implied_rate_spec books (legs_of path) (ToFixed 1) of
               None \<Rightarrow> 0
             | Some implied \<Rightarrow> if ToFixed 1 <s implied then implied - ToFixed 1 else 0)"
    by (rule computeEdge_spec)
next
  assume a: "evaluate EstimateCost ids now m updatedSymbol mdTimestamp = Inr signals
      \<and> signal \<in> set signals"
  then obtain p k where p: "p \<in> set (ta_paths m)"
    and ev: "evaluate_path EstimateCost (ids k) now m updatedSymbol mdTimestamp p = Inr (Some signal)"
    unfolding evaluate_def using evaluate_paths_member by blast
  have inv: "pathInvolves (legs_of p) updatedSymbol"
    and av: "allBooksAvailable (ta_books m) (legs_of p)"
    using ev by (auto simp: evaluate_path_def split: if_splits)
  obtain edge where edge: "computeEdge (ta_books m) p = Inr edge"
    using computeEdge_total [OF av] by blast
  obtain threshold where th: "FixedFromBps (ta_minEdgeBps m) = Inr threshold"
    using FixedFromBps_total by blast
  have gt: "threshold <s edge"
    and bs: "buildSignal EstimateCost (ids k) now m p edge mdTimestamp = Inr (Some signal)"
    using ev inv av by (auto simp: evaluate_path_def edge th FixedPrice_GT_def split: if_splits)
  from buildSignal_Some [OF bs] p inv av edge th gt
  show "\<exists>p \<in> set (ta_paths m). \<exists>edge threshold costEst firstLeg rest.
          pathInvolves (legs_of p) updatedSymbol
        \<and> allBooksAvailable (ta_books m) (legs_of p)
        \<and> computeEdge (ta_books m) p = Inr edge
        \<and> FixedFromBps (ta_minEdgeBps m) = Inr threshold
        \<and> threshold <s edge
        \<and> sig_Legs signal = firstLeg # rest
        \<and> leg_Symbol firstLeg = tl_Symbol (fst (tp_Legs p))
        \<and> leg_Side firstLeg = tl_Side (fst (tp_Legs p))
        \<and> EstimateCost (ta_venue m) (leg_Symbol firstLeg) (leg_Side firstLeg) (leg_Size firstLeg)
             OrderTypeLimit = Inr costEst
        \<and> sig_ExpectedEdgeBps signal = ToDecimal edge * 10000 - ce_TotalBps costEst
        \<and> 0 < sig_ExpectedEdgeBps signal"
    by blast
qed

theorem triangular_edge_and_signal_witness:
  "allBooksAvailable (ta_books (example_module 3050)) (legs_of btc_eth_path)
   \<and> computeEdge (ta_books (example_module 3050)) btc_eth_path = Inr 16665650
   \<and> (\<exists>signal. evaluate free_cost_model (\<lambda>n. n) 5 (example_module 3050) ''ETH/USDT'' 3
          = Inr [signal]
        \<and> 0 < sig_ExpectedEdgeBps signal)"
proof -
  let ?m = "example_module 3050"
  have av: "allBooksAvailable (ta_books ?m) (legs_of btc_eth_path)"
    by code_simp
  have imp: "implied_rate_spec (ta_books ?m) (legs_of btc_eth_path) (ToFixed 1) = Some 1016665650"
    by code_simp
  have "(case evaluate free_cost_model (\<lambda>n. n) 5 ?m ''ETH/USDT'' 3 of
           Inr [signal] \<Rightarrow> True | _ \<Rightarrow> False)"
    by code_simp
  then obtain signal where ev: "evaluate free_cost_model (\<lambda>n. n) 5 ?m ''ETH/USDT'' 3 = Inr [signal]"
    by (auto split: sum.splits list.splits)
  note t = triangular_edge_and_signal [of "ta_books ?m" btc_eth_path free_cost_model "\<lambda>n. n" 5 ?m
      "''ETH/USDT''" 3 "[signal]" signal]
  have "computeEdge (ta_books ?m) btc_eth_path =
      Inr (case implied_rate_spec (ta_books ?m) (legs_of btc_eth_path) (ToFixed 1) of
             None \<Rightarrow> 0
           | Some implied \<Rightarrow> if ToFixed 1 <s implied then implied - ToFixed 1 else 0)"
    using t av by blast
  then have edge: "computeEdge (ta_books ?m) btc_eth_path = Inr 16665650"
    unfolding imp by (simp add: ToFixed_one)
  have "0 < sig_ExpectedEdgeBps signal"
    using t ev by auto
  with av edge ev show ?thesis
    by blast
qed


end
